theory Spec2Isabelle
  imports Complex_Main
begin

section \<open>JavaScript values\<close>

text \<open>
  The program is a single file, \<^verbatim>\<open>index.js\<close>, in two variants: the structured
  request handler (first half of the file) and the flat one (second half). The helper
  functions are the same text in both.

  A JavaScript number is modelled by a \<^typ>\<open>real\<close>: the arithmetic of the program
  (differences, remainders, comparisons, rounding to two decimals) is taken exactly, without
  the rounding of IEEE doubles. \<open>NaN\<close> and the two infinities are values of their own
  where the program can produce them. A value that may be absent is an \<open>option\<close>, with
  \<open>None\<close> for \<^verbatim>\<open>undefined\<close>. A string is the list of its code units, taken
  below 256.
\<close>

datatype jsval = JUndefined | JNull | JBool bool | JNum real | JStr string | JObject

datatype jsnum = NaN | Num real | PosInf | NegInf

datatype error = TypeError

text \<open>
  A value that is a number when it is there, as the longitude of a lookup is:
  \<^verbatim>\<open>undefined\<close>, \<^verbatim>\<open>null\<close> or the number. In arithmetic and in comparisons
  \<^verbatim>\<open>undefined\<close> counts as \<open>NaN\<close> (here \<open>None\<close>) and \<^verbatim>\<open>null\<close> as 0.
\<close>

datatype numval = Undefined | Null | Val real

fun toNum :: "numval \<Rightarrow> real option" where
  "toNum Undefined = None"
| "toNum Null = Some 0"
| "toNum (Val x) = Some x"

text \<open>Truthiness, as \<^verbatim>\<open>if (v)\<close> and \<^verbatim>\<open>v && w\<close> test it.\<close>

fun truthy :: "jsval \<Rightarrow> bool" where
  "truthy JUndefined = False"
| "truthy JNull = False"
| "truthy (JBool b) = b"
| "truthy (JNum n) = (n \<noteq> 0)"
| "truthy (JStr s) = (s \<noteq> [])"
| "truthy JObject = True"

fun num_neg :: "jsnum \<Rightarrow> jsnum" where
  "num_neg NaN = NaN"
| "num_neg (Num a) = Num (- a)"
| "num_neg PosInf = NegInf"
| "num_neg NegInf = PosInf"

fun num_add :: "jsnum \<Rightarrow> jsnum \<Rightarrow> jsnum" where
  "num_add (Num a) (Num b) = Num (a + b)"
| "num_add NaN _ = NaN"
| "num_add _ NaN = NaN"
| "num_add PosInf NegInf = NaN"
| "num_add NegInf PosInf = NaN"
| "num_add PosInf _ = PosInf"
| "num_add _ PosInf = PosInf"
| "num_add NegInf _ = NegInf"
| "num_add _ NegInf = NegInf"

fun num_sub :: "jsnum \<Rightarrow> jsnum \<Rightarrow> jsnum" where
  "num_sub (Num a) (Num b) = Num (a - b)"
| "num_sub a b = num_add a (num_neg b)"

text \<open>An infinity times a number has the sign of the product; times zero it is \<open>NaN\<close>.\<close>

fun signedInf :: "real \<Rightarrow> jsnum" where
  "signedInf x = (if 0 < x then PosInf else if x < 0 then NegInf else NaN)"

fun num_mul :: "jsnum \<Rightarrow> jsnum \<Rightarrow> jsnum" where
  "num_mul (Num a) (Num b) = Num (a * b)"
| "num_mul NaN _ = NaN"
| "num_mul _ NaN = NaN"
| "num_mul PosInf (Num b) = signedInf b"
| "num_mul NegInf (Num b) = signedInf (- b)"
| "num_mul (Num a) PosInf = signedInf a"
| "num_mul (Num a) NegInf = signedInf (- a)"
| "num_mul PosInf PosInf = PosInf"
| "num_mul NegInf NegInf = PosInf"
| "num_mul PosInf NegInf = NegInf"
| "num_mul NegInf PosInf = NegInf"

text \<open>Division by the constant 60, the only divisor \<^verbatim>\<open>parseDateTime\<close> uses.\<close>

fun num_div60 :: "jsnum \<Rightarrow> jsnum" where
  "num_div60 (Num a) = Num (a / 60)"
| "num_div60 NaN = NaN"
| "num_div60 PosInf = PosInf"
| "num_div60 NegInf = NegInf"

text \<open>
  Comparisons of numbers; with an operand that is \<open>NaN\<close> (\<^verbatim>\<open>undefined\<close> as a
  number) they are false, whichever the operator.
\<close>

fun js_lt :: "real option \<Rightarrow> real option \<Rightarrow> bool" where
  "js_lt (Some a) (Some b) = (a < b)"
| "js_lt _ _ = False"

fun js_ge :: "real option \<Rightarrow> real option \<Rightarrow> bool" where
  "js_ge (Some a) (Some b) = (a \<ge> b)"
| "js_ge _ _ = False"

text \<open>
  \<^verbatim>\<open>n % d\<close> on numbers: the remainder has the sign of the dividend (the quotient is
  truncated towards zero). The program only divides by the constant 30.
\<close>

definition trunc :: "real \<Rightarrow> int" where
  "trunc x = (if x < 0 then \<lceil>x\<rceil> else \<lfloor>x\<rfloor>)"

definition js_rem :: "real \<Rightarrow> real \<Rightarrow> real" where
  "js_rem n d = n - d * of_int (trunc (n / d))"

text \<open>
  \<^verbatim>\<open>+(x).toFixed(2)\<close>: the decimal with two fraction digits nearest to \<open>x\<close>, the
  larger one on a tie, computed on the absolute value with the sign put back; read back as
  a number.
\<close>

definition toFixed2 :: "real \<Rightarrow> real" where
  "toFixed2 x = (if x < 0 then - (of_int \<lfloor>(- x) * 100 + 1 / 2\<rfloor> / 100)
                 else of_int \<lfloor>x * 100 + 1 / 2\<rfloor> / 100)"

subsection \<open>Strings to numbers\<close>

definition isDigit :: "char \<Rightarrow> bool" where
  "isDigit c = (48 \<le> (of_char c :: nat) \<and> (of_char c :: nat) \<le> 57)"

definition digitsVal :: "string \<Rightarrow> nat" where
  "digitsVal s = foldl (\<lambda>acc c. 10 * acc + (of_char c - 48)) 0 s"

text \<open>
  The white space and the line terminators among the code units below 256: tab, line feed,
  vertical tab, form feed, carriage return, space, no-break space.
\<close>

definition isWhiteSpace :: "char \<Rightarrow> bool" where
  "isWhiteSpace c = ((of_char c :: nat) \<in> {9, 10, 11, 12, 13, 32, 160})"

definition trimString :: "string \<Rightarrow> string" where
  "trimString s = rev (dropWhile isWhiteSpace (rev (dropWhile isWhiteSpace s)))"

text \<open>
  A digit of a literal with a radix prefix: its value, or 16 for a character that is no
  digit in any of the radices.
\<close>

definition radixDigit :: "char \<Rightarrow> nat" where
  "radixDigit c =
     (let n = of_char c in
      if 48 \<le> n \<and> n \<le> 57 then n - 48
      else if 97 \<le> n \<and> n \<le> 102 then n - 87
      else if 65 \<le> n \<and> n \<le> 70 then n - 55
      else 16)"

definition radixValue :: "nat \<Rightarrow> string \<Rightarrow> jsnum" where
  "radixValue r ds =
     (if ds \<noteq> [] \<and> list_all (\<lambda>c. radixDigit c < r) ds
      then Num (real (foldl (\<lambda>acc c. r * acc + radixDigit c) 0 ds))
      else NaN)"

text \<open>
  The exponent part that ends a decimal literal: nothing (exponent 0), or \<^verbatim>\<open>e\<close> or
  \<^verbatim>\<open>E\<close>, an optional sign and digits. \<open>None\<close> when the text is neither.
\<close>

definition exponentPart :: "string \<Rightarrow> int option" where
  "exponentPart s =
     (case s of
        [] \<Rightarrow> Some 0
      | c # cs \<Rightarrow>
          if c = CHR ''e'' \<or> c = CHR ''E'' then
            (let neg = (cs \<noteq> [] \<and> hd cs = CHR ''-'');
                 ds = (if cs \<noteq> [] \<and> (hd cs = CHR ''+'' \<or> hd cs = CHR ''-'') then tl cs else cs)
             in if ds \<noteq> [] \<and> list_all isDigit ds
                then Some (if neg then - int (digitsVal ds) else int (digitsVal ds))
                else None)
          else None)"

definition scale10 :: "real \<Rightarrow> int \<Rightarrow> real" where
  "scale10 x e = (if 0 \<le> e then x * 10 ^ nat e else x / 10 ^ nat (- e))"

text \<open>
  An unsigned decimal literal: \<^verbatim>\<open>Infinity\<close>, or digits with an optional fraction, or
  a fraction alone, each with an optional exponent part.
\<close>

definition unsignedDecimal :: "string \<Rightarrow> jsnum" where
  "unsignedDecimal s =
     (if s = ''Infinity'' then PosInf
      else
        (let ip = takeWhile isDigit s;
             r1 = dropWhile isDigit s;
             dot = (r1 \<noteq> [] \<and> hd r1 = CHR ''.'');
             fp = (if dot then takeWhile isDigit (tl r1) else []);
             r2 = (if dot then dropWhile isDigit (tl r1) else r1)
         in if ip = [] \<and> fp = [] then NaN
            else (case exponentPart r2 of
                    None \<Rightarrow> NaN
                  | Some e \<Rightarrow>
                      Num (scale10 (real (digitsVal ip) + real (digitsVal fp) / 10 ^ length fp)
                             e))))"

text \<open>
  \<^verbatim>\<open>Number(s)\<close> on a string: white space is trimmed from both ends; the empty
  string is 0; a literal with the prefix \<^verbatim>\<open>0x\<close>, \<^verbatim>\<open>0o\<close> or \<^verbatim>\<open>0b\<close> (in
  either case) is read in its radix, without a sign; anything else is read as a signed
  decimal literal; a string of no such form is \<open>NaN\<close>.
\<close>

definition Number_str :: "string \<Rightarrow> jsnum" where
  "Number_str s =
     (let t = trimString s in
      case t of
        [] \<Rightarrow> Num 0
      | c # cs \<Rightarrow>
          if c = CHR ''0'' \<and> cs \<noteq> [] \<and> (hd cs = CHR ''x'' \<or> hd cs = CHR ''X'')
          then radixValue 16 (tl cs)
          else if c = CHR ''0'' \<and> cs \<noteq> [] \<and> (hd cs = CHR ''o'' \<or> hd cs = CHR ''O'')
          then radixValue 8 (tl cs)
          else if c = CHR ''0'' \<and> cs \<noteq> [] \<and> (hd cs = CHR ''b'' \<or> hd cs = CHR ''B'')
          then radixValue 2 (tl cs)
          else if c = CHR ''-'' then num_neg (unsignedDecimal cs)
          else if c = CHR ''+'' then unsignedDecimal cs
          else unsignedDecimal t)"

text \<open>
  The exponent of the longest exponent part that starts the text, 0 when there is none.
\<close>

definition exponentPrefix :: "string \<Rightarrow> int" where
  "exponentPrefix s =
     (case s of
        [] \<Rightarrow> 0
      | c # cs \<Rightarrow>
          if c = CHR ''e'' \<or> c = CHR ''E'' then
            (let neg = (cs \<noteq> [] \<and> hd cs = CHR ''-'');
                 ds = takeWhile isDigit
                        (if cs \<noteq> [] \<and> (hd cs = CHR ''+'' \<or> hd cs = CHR ''-'') then tl cs
                         else cs)
             in if neg then - int (digitsVal ds) else int (digitsVal ds))
          else 0)"

text \<open>
  The value of the longest prefix that is an unsigned decimal literal; \<open>NaN\<close> when no
  prefix is one.
\<close>

definition unsignedPrefix :: "string \<Rightarrow> jsnum" where
  "unsignedPrefix u =
     (if take 8 u = ''Infinity'' then PosInf
      else
        (let ip = takeWhile isDigit u;
             r1 = dropWhile isDigit u;
             dot = (r1 \<noteq> [] \<and> hd r1 = CHR ''.'');
             fp = (if dot then takeWhile isDigit (tl r1) else []);
             r2 = (if dot then dropWhile isDigit (tl r1) else r1)
         in if ip = [] \<and> fp = [] then NaN
            else Num (scale10 (real (digitsVal ip) + real (digitsVal fp) / 10 ^ length fp)
                        (exponentPrefix r2))))"

text \<open>
  \<^verbatim>\<open>parseFloat(s)\<close>: leading white space is skipped, and the value is that of the
  longest prefix that is a signed decimal literal.
\<close>

definition parseFloat :: "string \<Rightarrow> jsnum" where
  "parseFloat s =
     (let t = dropWhile isWhiteSpace s in
      case t of
        [] \<Rightarrow> NaN
      | c # cs \<Rightarrow>
          if c = CHR ''-'' then num_neg (unsignedPrefix cs)
          else if c = CHR ''+'' then unsignedPrefix cs
          else unsignedPrefix t)"

text \<open>\<^verbatim>\<open>s.split(sep)\<close> with a one-character separator.\<close>

fun jsSplit :: "char \<Rightarrow> string \<Rightarrow> string list" where
  "jsSplit sep [] = [[]]"
| "jsSplit sep (c # cs) =
     (if c = sep then [] # jsSplit sep cs
      else (case jsSplit sep cs of p # ps \<Rightarrow> (c # p) # ps | [] \<Rightarrow> [[c]]))"

text \<open>
  \<^verbatim>\<open>const [a, b, c] = parts.map(Number)\<close>: the element when there is one,
  \<^verbatim>\<open>undefined\<close> otherwise.
\<close>

definition numAt :: "string list \<Rightarrow> nat \<Rightarrow> jsnum option" where
  "numAt parts i = (if i < length parts then Some (Number_str (parts ! i)) else None)"

text \<open>An operand that is \<^verbatim>\<open>undefined\<close> becomes \<open>NaN\<close> in arithmetic.\<close>

fun toNumber :: "jsnum option \<Rightarrow> jsnum" where
  "toNumber None = NaN"
| "toNumber (Some n) = n"

section \<open>The lookup tables\<close>

datatype body =
  SE_SUN | SE_MOON | SE_MERCURY | SE_VENUS | SE_MARS | SE_JUPITER | SE_SATURN
  | SE_URANUS | SE_NEPTUNE | SE_PLUTO | SE_CHIRON | SE_TRUE_NODE

definition PLANETS :: "(string \<times> body) list" where
  "PLANETS =
     [(''Sun'', SE_SUN), (''Moon'', SE_MOON), (''Mercury'', SE_MERCURY),
      (''Venus'', SE_VENUS), (''Mars'', SE_MARS), (''Jupiter'', SE_JUPITER),
      (''Saturn'', SE_SATURN), (''Uranus'', SE_URANUS), (''Neptune'', SE_NEPTUNE),
      (''Pluto'', SE_PLUTO), (''Chiron'', SE_CHIRON), (''North Node'', SE_TRUE_NODE)]"

definition SIGNS :: "string list" where
  "SIGNS =
     [''Aries'', ''Taurus'', ''Gemini'', ''Cancer'', ''Leo'', ''Virgo'',
      ''Libra'', ''Scorpio'', ''Sagittarius'', ''Capricorn'', ''Aquarius'', ''Pisces'']"

definition ELEMENTS :: "(string \<times> string) list" where
  "ELEMENTS =
     [(''Aries'', ''Fire''), (''Leo'', ''Fire''), (''Sagittarius'', ''Fire''),
      (''Taurus'', ''Earth''), (''Virgo'', ''Earth''), (''Capricorn'', ''Earth''),
      (''Gemini'', ''Air''), (''Libra'', ''Air''), (''Aquarius'', ''Air''),
      (''Cancer'', ''Water''), (''Scorpio'', ''Water''), (''Pisces'', ''Water'')]"

definition MODES :: "(string \<times> string) list" where
  "MODES =
     [(''Aries'', ''Cardinal''), (''Cancer'', ''Cardinal''), (''Libra'', ''Cardinal''),
      (''Capricorn'', ''Cardinal''),
      (''Taurus'', ''Fixed''), (''Leo'', ''Fixed''), (''Scorpio'', ''Fixed''),
      (''Aquarius'', ''Fixed''),
      (''Gemini'', ''Mutable''), (''Virgo'', ''Mutable''), (''Sagittarius'', ''Mutable''),
      (''Pisces'', ''Mutable'')]"

subsection \<open>Reading a property of an object literal\<close>

text \<open>
  \<^verbatim>\<open>ELEMENTS\<close> and \<^verbatim>\<open>MODES\<close> are object literals, so \<^verbatim>\<open>ELEMENTS[k]\<close>
  finds the object's own properties and, failing that, the members every object inherits
  from \<^verbatim>\<open>Object.prototype\<close>. An inherited member is a function (or, for
  \<^verbatim>\<open>__proto__\<close>, the prototype object): it is truthy.
\<close>

definition objectPrototypeKeys :: "string list" where
  "objectPrototypeKeys =
     [''constructor'', ''__defineGetter__'', ''__defineSetter__'', ''hasOwnProperty'',
      ''__lookupGetter__'', ''__lookupSetter__'', ''isPrototypeOf'',
      ''propertyIsEnumerable'', ''toString'', ''valueOf'', ''__proto__'',
      ''toLocaleString'']"

datatype propval = Own string | Inherited string

definition jsGet :: "(string \<times> string) list \<Rightarrow> string \<Rightarrow> propval option" where
  "jsGet obj k =
     (case map_of obj k of
        Some v \<Rightarrow> Some (Own v)
      | None \<Rightarrow> if k \<in> set objectPrototypeKeys then Some (Inherited k) else None)"

fun truthyProp :: "propval option \<Rightarrow> bool" where
  "truthyProp None = False"
| "truthyProp (Some (Own v)) = (v \<noteq> [])"
| "truthyProp (Some (Inherited k)) = True"

text \<open>
  A value used as a property key is converted to a string: a string is itself, a native
  function prints as its source text, the prototype object as \<^verbatim>\<open>[object Object]\<close>.
\<close>

fun toPropertyKey :: "propval \<Rightarrow> string" where
  "toPropertyKey (Own v) = v"
| "toPropertyKey (Inherited k) =
     (if k = ''__proto__'' then ''[object Object]''
      else ''function '' @ (if k = ''constructor'' then ''Object'' else k)
           @ ''() { [native code] }'')"

section \<open>Signs and degrees\<close>

text \<open>
  \<^verbatim>\<open>SIGNS[Math.floor(degree / 30)]\<close>: an index outside the array reads
  \<^verbatim>\<open>undefined\<close>.
\<close>

definition getSign :: "real \<Rightarrow> string option" where
  "getSign degree =
     (let signIndex = \<lfloor>degree / 30\<rfloor> in
      if 0 \<le> signIndex \<and> signIndex < int (length SIGNS) then Some (SIGNS ! nat signIndex)
      else None)"

definition getDegreeInSign :: "real \<Rightarrow> real" where
  "getDegreeInSign degree = toFixed2 (js_rem degree 30)"

section \<open>Positions\<close>

text \<open>
  The object \<^verbatim>\<open>{ sign, degree, house, absDegree }\<close> that \<^verbatim>\<open>getAllPositions\<close>
  stores per body; the structured handler stores \<^verbatim>\<open>{ sign, degree, house }\<close>, with
  \<^verbatim>\<open>retrograde\<close> for a natal body. A mapping from body names to positions is an association list in the
  order \<^verbatim>\<open>Object.keys\<close> and \<^verbatim>\<open>for ... in\<close> enumerate it; an object has no
  two properties of the same name, so its keys are distinct.
\<close>

record placement =
  sign :: "string option"
  degree :: jsnum
  house :: "nat option"

record position = placement +
  absDegree :: numval

section \<open>Elemental and modal distribution\<close>

text \<open>
  \<^verbatim>\<open>dist[k]++\<close>: an own property is incremented in place; a key the object does not
  have is created, and the increment of a value that is not a number is \<open>NaN\<close>.
\<close>

fun incr :: "(string \<times> jsnum) list \<Rightarrow> string \<Rightarrow> (string \<times> jsnum) list" where
  "incr [] k = [(k, NaN)]"
| "incr ((k', v) # counts) k =
     (if k' = k then (k', num_add v (Num 1)) # counts else (k', v) # incr counts k)"

text \<open>
  The body of both loops: \<^verbatim>\<open>if (p.sign && TABLE[p.sign]) dist[TABLE[p.sign]]++\<close>.
\<close>

definition tally ::
  "(string \<times> string) list \<Rightarrow> (string \<times> jsnum) list \<Rightarrow> position
     \<Rightarrow> (string \<times> jsnum) list" where
  "tally table counts p =
     (case sign p of
        None \<Rightarrow> counts
      | Some s \<Rightarrow>
          if s \<noteq> [] \<and> truthyProp (jsGet table s)
          then (case jsGet table s of Some v \<Rightarrow> incr counts (toPropertyKey v) | None \<Rightarrow> counts)
          else counts)"

fun distLoop ::
  "(string \<times> string) list \<Rightarrow> (string \<times> position) list \<Rightarrow> (string \<times> jsnum) list
     \<Rightarrow> (string \<times> jsnum) list" where
  "distLoop table [] counts = counts"
| "distLoop table ((planet, p) # positions) counts = distLoop table positions (tally table counts p)"

definition getElementalDistribution :: "(string \<times> position) list \<Rightarrow> (string \<times> jsnum) list" where
  "getElementalDistribution positions =
     distLoop ELEMENTS positions
       [(''Fire'', Num 0), (''Water'', Num 0), (''Earth'', Num 0), (''Air'', Num 0)]"

definition getModalDistribution :: "(string \<times> position) list \<Rightarrow> (string \<times> jsnum) list" where
  "getModalDistribution positions =
     distLoop MODES positions
       [(''Cardinal'', Num 0), (''Fixed'', Num 0), (''Mutable'', Num 0)]"

text \<open>Reading one count, \<^verbatim>\<open>dist[k]\<close>, and adding up the counts of some categories.\<close>

definition countOf :: "(string \<times> jsnum) list \<Rightarrow> string \<Rightarrow> jsnum" where
  "countOf counts k = (case map_of counts k of Some v \<Rightarrow> v | None \<Rightarrow> NaN)"

definition sumCounts :: "(string \<times> jsnum) list \<Rightarrow> string list \<Rightarrow> jsnum" where
  "sumCounts counts ks = foldl (\<lambda>acc k. num_add acc (countOf counts k)) (Num 0) ks"

section \<open>Aspects\<close>

record aspectType =
  type :: string
  angle :: real
  orb :: real

record aspect =
  type :: string
  between :: "string \<times> string"
  orb :: real

definition aspectTypes :: "aspectType list" where
  "aspectTypes =
     [\<lparr>aspectType.type = ''Conjunction'', angle = 0, orb = 8\<rparr>,
      \<lparr>aspectType.type = ''Opposition'', angle = 180, orb = 8\<rparr>,
      \<lparr>aspectType.type = ''Trine'', angle = 120, orb = 8\<rparr>,
      \<lparr>aspectType.type = ''Square'', angle = 90, orb = 8\<rparr>,
      \<lparr>aspectType.type = ''Sextile'', angle = 60, orb = 6\<rparr>]"

text \<open>
  \<^verbatim>\<open>let diff = Math.abs(a - b); if (diff > 180) diff = 360 - diff;\<close>
\<close>

definition separation :: "real \<Rightarrow> real \<Rightarrow> real" where
  "separation a b = (let diff = \<bar>a - b\<bar> in if diff > 180 then 360 - diff else diff)"

text \<open>The loop over the catalog, pushing one match per entry within its orb.\<close>

fun matchAspects :: "aspectType list \<Rightarrow> string \<times> string \<Rightarrow> real \<Rightarrow> aspect list" where
  "matchAspects [] names diff = []"
| "matchAspects (asp # asps) names diff =
     (if \<bar>diff - angle asp\<bar> \<le> aspectType.orb asp
      then \<lparr>aspect.type = aspectType.type asp, between = names,
             orb = toFixed2 \<bar>diff - angle asp\<bar>\<rparr> # matchAspects asps names diff
      else matchAspects asps names diff)"

text \<open>
  One pair of bodies: \<^verbatim>\<open>if (a == null || b == null) continue;\<close> and then the
  separation and the catalog.
\<close>

definition pairAspects :: "string \<times> string \<Rightarrow> numval \<Rightarrow> numval \<Rightarrow> aspect list" where
  "pairAspects names a b =
     (case (a, b) of
        (Val x, Val y) \<Rightarrow> matchAspects aspectTypes names (separation x y)
      | _ \<Rightarrow> [])"

text \<open>
  \<^verbatim>\<open>getAspects\<close> reads its argument only through \<^verbatim>\<open>.absDegree\<close>, so an entry
  is the key with that field. The inner loop pairs body \<open>i\<close> with every later body, the
  outer loop moves \<open>i\<close> on.
\<close>

fun innerLoop :: "string \<Rightarrow> numval \<Rightarrow> (string \<times> numval) list \<Rightarrow> aspect list" where
  "innerLoop ki a [] = []"
| "innerLoop ki a ((kj, b) # rest) = pairAspects (ki, kj) a b @ innerLoop ki a rest"

fun getAspects :: "(string \<times> numval) list \<Rightarrow> aspect list" where
  "getAspects [] = []"
| "getAspects ((ki, a) # rest) = innerLoop ki a rest @ getAspects rest"

text \<open>
  The cross-set loop of the structured handler: every natal body against every transit
  body, labelled with the name of its set.
\<close>

fun transitLoop :: "string \<Rightarrow> numval \<Rightarrow> (string \<times> numval) list \<Rightarrow> aspect list" where
  "transitLoop ntl a [] = []"
| "transitLoop ntl a ((trn, b) # rest) =
     pairAspects (''Natal '' @ ntl, ''Transit '' @ trn) a b @ transitLoop ntl a rest"

fun aspects_to_natal ::
  "(string \<times> numval) list \<Rightarrow> (string \<times> numval) list \<Rightarrow> aspect list" where
  "aspects_to_natal [] transitAbs = []"
| "aspects_to_natal ((ntl, a) # natalAbs) transitAbs =
     transitLoop ntl a transitAbs @ aspects_to_natal natalAbs transitAbs"

section \<open>Time\<close>

record dateTime =
  year :: "jsnum option"
  month :: "jsnum option"
  day :: "jsnum option"
  hour :: jsnum

text \<open>The test \<^verbatim>\<open>/^[+-]\d{2}:\d{2}$/\<close>.\<close>

definition isOffsetHHMM :: "string \<Rightarrow> bool" where
  "isOffsetHHMM s =
     (length s = 6 \<and> (s ! 0 = CHR ''+'' \<or> s ! 0 = CHR ''-'') \<and> isDigit (s ! 1)
      \<and> isDigit (s ! 2) \<and> s ! 3 = CHR '':'' \<and> isDigit (s ! 4) \<and> isDigit (s ! 5))"

text \<open>The test \<^verbatim>\<open>/^[+-]?\d+(\.\d+)?$/\<close>.\<close>

definition isDecimalHours :: "string \<Rightarrow> bool" where
  "isDecimalHours s =
     (let u = (if s \<noteq> [] \<and> (hd s = CHR ''+'' \<or> hd s = CHR ''-'') then tl s else s);
          ip = takeWhile isDigit u;
          rest = dropWhile isDigit u
      in ip \<noteq> [] \<and>
         (rest = [] \<or> (hd rest = CHR ''.'' \<and> tl rest \<noteq> [] \<and> list_all isDigit (tl rest))))"

text \<open>The offset that \<^verbatim>\<open>parseDateTime\<close> computes from \<^verbatim>\<open>timezone\<close>.\<close>

definition tzOffset :: "jsval \<Rightarrow> jsnum" where
  "tzOffset timezone =
     (case timezone of
        JStr s \<Rightarrow>
          if s = ''Z'' then Num 0
          else if isOffsetHHMM s then
            (let sgn = (if s ! 0 = CHR ''-'' then - 1 else 1);
                 hm = jsSplit CHR '':'' (drop 1 s);
                 h = toNumber (numAt hm 0);
                 m = toNumber (numAt hm 1)
             in num_mul (Num sgn) (num_add h (num_div60 m)))
          else if isDecimalHours s then parseFloat s
          else Num 0
      | JNum n \<Rightarrow> Num n
      | _ \<Rightarrow> Num 0)"

text \<open>
  \<^verbatim>\<open>date.split\<close> and \<^verbatim>\<open>time.split\<close> throw a TypeError on a value that is not
  a string.
\<close>

definition parseDateTime :: "jsval \<Rightarrow> jsval \<Rightarrow> jsval \<Rightarrow> error + dateTime" where
  "parseDateTime date time timezone =
     (case date of
        JStr d \<Rightarrow>
          (case time of
             JStr t \<Rightarrow>
               (let ymd = jsSplit CHR ''-'' d;
                    hm = jsSplit CHR '':'' t;
                    hh = toNumber (numAt hm 0);
                    mm = toNumber (numAt hm 1);
                    offset = tzOffset timezone
                in Inr \<lparr>year = numAt ymd 0, month = numAt ymd 1, day = numAt ymd 2,
                        hour = num_sub (num_add hh (num_div60 mm)) offset\<rparr>)
           | _ \<Rightarrow> Inl TypeError)
      | _ \<Rightarrow> Inl TypeError)"

section \<open>The ephemeris and the houses\<close>

text \<open>
  The Swiss Ephemeris is outside the program: its functions are parameters. A body lookup
  answers with a longitude and a speed (either may be missing from a failed lookup); the
  house lookup, seen through \<^verbatim>\<open>getHousesWithError\<close>, answers with nothing or with
  an object that may carry \<^verbatim>\<open>cusps\<close> or \<^verbatim>\<open>detail.house\<close>.
\<close>

record calcResult =
  longitude :: numval
  speed :: numval

record housesData =
  cusps :: "real list option"
  detail_house :: "real list option"

record swisseph =
  swe_julday :: "dateTime \<Rightarrow> real"
  swe_calc_ut :: "real \<Rightarrow> body \<Rightarrow> calcResult"
  getHousesWithError :: "real \<Rightarrow> jsval \<Rightarrow> jsval \<Rightarrow> jsval \<Rightarrow> housesData option"

text \<open>\<^verbatim>\<open>cs[i]\<close>: reading past the end of an array gives \<^verbatim>\<open>undefined\<close>.\<close>

definition cuspAt :: "real list \<Rightarrow> nat \<Rightarrow> real option" where
  "cuspAt cs i = (if i < length cs then Some (cs ! i) else None)"

text \<open>The test of house \<open>h\<close> in the scan: an AND-range, or an OR-range when it wraps.\<close>

definition inHouse :: "real list \<Rightarrow> real option \<Rightarrow> nat \<Rightarrow> bool" where
  "inHouse cs deg h =
     (let start = cuspAt cs (h - 1); finish = cuspAt cs (h mod 12) in
      if js_lt start finish then js_ge deg start \<and> js_lt deg finish
      else js_ge deg start \<or> js_lt deg finish)"

text \<open>
  \<^verbatim>\<open>for (let h = 1; h <= 12; h++) { ... house = h; break; }\<close>, from \<open>h\<close> on.
\<close>

function houseScan :: "real list \<Rightarrow> real option \<Rightarrow> nat \<Rightarrow> nat option" where
  "houseScan cs deg h =
     (if h \<le> 12 then (if inHouse cs deg h then Some h else houseScan cs deg (h + 1))
      else None)"
  by pat_completeness auto
termination
  by (relation "measure (\<lambda>(cs, deg, h). 13 - h)") auto

declare houseScan.simps [simp del]

text \<open>\<^verbatim>\<open>let house = null; if (cusps) { ... }\<close>\<close>

definition findHouse :: "real list option \<Rightarrow> real option \<Rightarrow> nat option" where
  "findHouse cs deg = (case cs of None \<Rightarrow> None | Some c \<Rightarrow> houseScan c deg 1)"

text \<open>
  Sign and degree of a looked-up longitude. On \<^verbatim>\<open>undefined\<close> the division gives
  \<open>NaN\<close>: the sign read is \<^verbatim>\<open>undefined\<close> and the degree is \<open>NaN\<close>. On
  \<^verbatim>\<open>null\<close> they are those of 0.
\<close>

definition signOf :: "numval \<Rightarrow> string option" where
  "signOf deg = (case toNum deg of None \<Rightarrow> None | Some d \<Rightarrow> getSign d)"

definition degreeOf :: "numval \<Rightarrow> jsnum" where
  "degreeOf deg = (case toNum deg of None \<Rightarrow> NaN | Some d \<Rightarrow> Num (getDegreeInSign d))"

section \<open>The flat variant\<close>

text \<open>The choice of cusps at the head of \<^verbatim>\<open>getAllPositions\<close>.\<close>

definition selectCusps :: "housesData option \<Rightarrow> real list option" where
  "selectCusps housesData =
     (case housesData of
        None \<Rightarrow> None
      | Some h \<Rightarrow> (case cusps h of Some c \<Rightarrow> Some c | None \<Rightarrow> detail_house h))"

definition getAllPositions ::
  "swisseph \<Rightarrow> real \<Rightarrow> housesData option \<Rightarrow> (string \<times> position) list" where
  "getAllPositions swe jd housesData =
     (let cs = selectCusps housesData in
      map (\<lambda>(name, planet).
             let res = swe_calc_ut swe jd planet;
                 deg = longitude res
             in (name, \<lparr>sign = signOf deg, degree = degreeOf deg,
                        house = findHouse cs (toNum deg), absDegree = deg\<rparr>))
          PLANETS)"

text \<open>
  \<^verbatim>\<open>getTransits(jdNatal, jdTransit)\<close> calls \<^verbatim>\<open>getAllPositions(jdTransit)\<close>: the
  second argument is left out, so \<^verbatim>\<open>housesData\<close> is \<^verbatim>\<open>undefined\<close> there.
\<close>

definition getTransits :: "swisseph \<Rightarrow> real \<Rightarrow> real \<Rightarrow> (string \<times> position) list" where
  "getTransits swe jdNatal jdTransit = getAllPositions swe jdTransit None"

record moment =
  date :: jsval
  time :: jsval
  timezone :: jsval

record flatBody = moment +
  lat :: jsval
  lon :: jsval
  transit_date :: jsval
  transit_time :: jsval
  hsys :: jsval
  transit_timezone :: jsval

record flatResult =
  positions :: "(string \<times> position) list"
  aspects :: "aspect list"
  elemental_distribution :: "(string \<times> jsnum) list"
  modal_distribution :: "(string \<times> jsnum) list"
  houses :: "housesData option"
  transits :: "(string \<times> position) list option"

text \<open>\<^verbatim>\<open>v != null\<close>\<close>

fun notNull :: "jsval \<Rightarrow> bool" where
  "notNull JUndefined = False"
| "notNull JNull = False"
| "notNull _ = True"

text \<open>
  The handler of \<^verbatim>\<open>POST /natal-chart\<close>, flat variant. An exception it catches is the
  500 answer, \<open>Inl\<close> here. The positions of the answer have had \<^verbatim>\<open>absDegree\<close>
  deleted.
\<close>

definition withoutAbsDegree :: "(string \<times> position) list \<Rightarrow> (string \<times> position) list" where
  "withoutAbsDegree ps = map (\<lambda>(k, p). (k, p\<lparr>absDegree := Undefined\<rparr>)) ps"

definition natalChartFlat :: "swisseph \<Rightarrow> flatBody \<Rightarrow> error + flatResult" where
  "natalChartFlat swe body =
     (case parseDateTime (date body) (time body) (timezone body) of
        Inl e \<Rightarrow> Inl e
      | Inr birth \<Rightarrow>
          (let jd = swe_julday swe birth;
               hs = (if notNull (lat body) \<and> notNull (lon body)
                     then getHousesWithError swe jd (lat body) (lon body) (hsys body)
                     else None);
               ps = getAllPositions swe jd hs;
               asps = getAspects (map (\<lambda>(k, p). (k, absDegree p)) ps);
               el = getElementalDistribution ps;
               mo = getModalDistribution ps
           in if truthy (transit_date body) \<and> truthy (transit_time body) then
                (case parseDateTime (transit_date body) (transit_time body)
                        (transit_timezone body) of
                   Inl e \<Rightarrow> Inl e
                 | Inr transit \<Rightarrow>
                     Inr \<lparr>positions = withoutAbsDegree ps, aspects = asps,
                          elemental_distribution = el, modal_distribution = mo, houses = hs,
                          transits =
                            Some (withoutAbsDegree
                                    (getTransits swe jd (swe_julday swe transit)))\<rparr>)
              else
                Inr \<lparr>positions = withoutAbsDegree ps, aspects = asps,
                     elemental_distribution = el, modal_distribution = mo, houses = hs,
                     transits = None\<rparr>))"

section \<open>The structured variant\<close>

text \<open>
  \<^verbatim>\<open>name.replace('North Node', 'NorthNode')\<close>: the first occurrence of the pattern
  is replaced.
\<close>

fun replaceFirst :: "string \<Rightarrow> string \<Rightarrow> string \<Rightarrow> string" where
  "replaceFirst pat rep [] = (if pat = [] then rep else [])"
| "replaceFirst pat rep (c # cs) =
     (if take (length pat) (c # cs) = pat then rep @ drop (length pat) (c # cs)
      else c # replaceFirst pat rep cs)"

definition planetKey :: "string \<Rightarrow> string" where
  "planetKey name = replaceFirst ''North Node'' ''NorthNode'' name"

text \<open>\<^verbatim>\<open>houses && houses.cusps\<close>\<close>

definition housesCusps :: "housesData option \<Rightarrow> real list option" where
  "housesCusps hs = (case hs of None \<Rightarrow> None | Some h \<Rightarrow> cusps h)"

text \<open>
  The transit pass of the structured handler: the loop over \<^verbatim>\<open>PLANETS\<close> at the
  transit moment, with the scan over \<^verbatim>\<open>houses.cusps\<close>, the houses of the birth
  moment.
\<close>

definition transitPositions ::
  "swisseph \<Rightarrow> housesData option \<Rightarrow> real \<Rightarrow> (string \<times> placement) list" where
  "transitPositions swe hs jdTransit =
     map (\<lambda>(name, planet).
            let res = swe_calc_ut swe jdTransit planet;
                deg = longitude res
            in (planetKey name,
                \<lparr>sign = signOf deg, degree = degreeOf deg,
                 house = findHouse (housesCusps hs) (toNum deg)\<rparr>))
         PLANETS"

text \<open>
  \<^verbatim>\<open>natalAbs\<close> and \<^verbatim>\<open>transitAbs\<close>: the longitude of every body, looked up again
  under the key of its position.
\<close>

definition absDegrees :: "swisseph \<Rightarrow> real \<Rightarrow> (string \<times> numval) list" where
  "absDegrees swe jd =
     map (\<lambda>(name, planet). (planetKey name, longitude (swe_calc_ut swe jd planet))) PLANETS"

record transitResult =
  transit_on :: jsval
  planets :: "(string \<times> placement) list"
  aspects_to_natal_of :: "aspect list"

text \<open>
  \<^verbatim>\<open>transitResult\<close> of the structured handler, from the houses and the julian day
  of the birth moment and the request's \<^verbatim>\<open>transit_chart\<close>.
\<close>

definition transitChart ::
  "swisseph \<Rightarrow> housesData option \<Rightarrow> real \<Rightarrow> moment option \<Rightarrow> error + transitResult option" where
  "transitChart swe hs jd transit_chart =
     (case transit_chart of
        None \<Rightarrow> Inr None
      | Some tc \<Rightarrow>
          if truthy (date tc) \<and> truthy (time tc) then
            (case parseDateTime (date tc) (time tc) (timezone tc) of
               Inl e \<Rightarrow> Inl e
             | Inr transitDT \<Rightarrow>
                 (let jdTransit = swe_julday swe transitDT in
                  Inr (Some \<lparr>transit_on = date tc,
                             planets = transitPositions swe hs jdTransit,
                             aspects_to_natal_of =
                               aspects_to_natal (absDegrees swe jd) (absDegrees swe jdTransit)\<rparr>)))
          else Inr None)"

section \<open>Auxiliary notions for the statements\<close>

text \<open>
  The timezone forms that are recognised: the literal \<^verbatim>\<open>Z\<close>, a signed
  \<^verbatim>\<open>HH:MM\<close> offset, a decimal number of hours as a string, or a number.
\<close>

definition recognisedTimezone :: "jsval \<Rightarrow> bool" where
  "recognisedTimezone tz =
     (case tz of
        JStr s \<Rightarrow> s = ''Z'' \<or> isOffsetHHMM s \<or> isDecimalHours s
      | JNum n \<Rightarrow> True
      | _ \<Rightarrow> False)"


text \<open>
  The interval from cusp \<open>a\<close> to cusp \<open>b\<close> does not hold the longitude \<open>L\<close>.
\<close>

definition misses :: "real \<Rightarrow> real \<Rightarrow> real \<Rightarrow> bool" where
  "misses L a b = ((a < b \<and> (L < a \<or> b \<le> L)) \<or> (b \<le> L \<and> L < a))"

text \<open>An entry whose sign is one of the twelve signs of the zodiac.\<close>

definition zodiac :: "string \<times> position \<Rightarrow> bool" where
  "zodiac kp = (case sign (snd kp) of None \<Rightarrow> False | Some s \<Rightarrow> s \<in> set SIGNS)"


text \<open>An entry whose sign the table \<open>T\<close> maps to the category \<open>c\<close>.\<close>

definition hit :: "(string \<times> string) list \<Rightarrow> string \<Rightarrow> string \<times> position \<Rightarrow> bool" where
  "hit T c kp = (case sign (snd kp) of None \<Rightarrow> False | Some s \<Rightarrow> map_of T s = Some c)"

text \<open>A position of which only the sign is set.\<close>

definition pos :: "string option \<Rightarrow> position" where
  "pos s = \<lparr>sign = s, degree = NaN, house = None, absDegree = Undefined\<rparr>"

section \<open>Rounding and remainders\<close>




section \<open>Signs\<close>








section \<open>Degree in sign\<close>




section \<open>Angular separation and the aspect catalog\<close>

text \<open>
  C7. For longitudes \<open>a\<close> and \<open>b\<close> in [0,360) the separation that the aspect loops
  compute (the same two statements in \<^verbatim>\<open>getAspects\<close> and in the loop for
  \<^verbatim>\<open>aspects_to_natal\<close>) is \<open>min(|a - b|, 360 - |a - b|)\<close>, is symmetric in \<open>a\<close>
  and \<open>b\<close>, and lies in [0,180].
\<close>

theorem separation_props:
  assumes "0 \<le> a" "a < 360" "0 \<le> b" "b < 360"
  shows "separation a b = min \<bar>a - b\<bar> (360 - \<bar>a - b\<bar>) \<and> separation a b = separation b a
       \<and> 0 \<le> separation a b \<and> separation a b \<le> 180"
  using assms by (auto simp: separation_def Let_def min_def abs_if)

theorem separation_props_witness:
  "separation 350 20 = min \<bar>350 - 20\<bar> (360 - \<bar>350 - 20\<bar>) \<and> separation 350 20 = 30 \<and> separation 20 350 = 30"
  using separation_props[of 350 20] by (simp add: separation_def)

text \<open>
  C5. The catalog is Conjunction (0, orb 8), Opposition (180, orb 8), Trine (120, orb 8),
  Square (90, orb 8), Sextile (60, orb 6); two bodies at 10 and 100 are 90 apart, and
  \<^verbatim>\<open>getAspects\<close> returns exactly one match for them, a Square with orb 0.
\<close>

theorem catalog_scenario:
  "map (\<lambda>t. (aspectType.type t, angle t, aspectType.orb t)) aspectTypes =
     [(''Conjunction'', 0, 8), (''Opposition'', 180, 8), (''Trine'', 120, 8),
      (''Square'', 90, 8), (''Sextile'', 60, 6)]
   \<and> separation 10 100 = 90
   \<and> getAspects [(ka, Val 10), (kb, Val 100)] =
       [\<lparr>aspect.type = ''Square'', between = (ka, kb), orb = 0\<rparr>]"
  by (simp add: aspectTypes_def separation_def pairAspects_def toFixed2_def)

section \<open>Local time to universal time\<close>

lemma jsSplit_no_sep: "sep \<notin> set s \<Longrightarrow> jsSplit sep s = [s]"
  by (induction s) auto

lemma jsSplit_two: "sep \<notin> set a \<Longrightarrow> sep \<notin> set b \<Longrightarrow> jsSplit sep (a @ sep # b) = [a, b]"
  by (induction a) (auto simp: jsSplit_no_sep)

lemma digit_facts:
  assumes "isDigit c"
  shows "\<not> isWhiteSpace c" "c \<noteq> CHR '':''" "c \<noteq> CHR ''.''" "c \<noteq> CHR ''+''" "c \<noteq> CHR ''-''"
    "c \<noteq> CHR ''x''" "c \<noteq> CHR ''X''" "c \<noteq> CHR ''o''" "c \<noteq> CHR ''O''" "c \<noteq> CHR ''b''"
    "c \<noteq> CHR ''B''" "c \<noteq> CHR ''I''" "c \<noteq> CHR ''e''" "c \<noteq> CHR ''E''" "c \<noteq> CHR ''Z''"
  using assms by (auto simp: isDigit_def isWhiteSpace_def)

lemma not_digit: "\<not> isDigit CHR ''.''" "\<not> isDigit CHR '':''" "\<not> isDigit CHR ''+''" "\<not> isDigit CHR ''-''"
  by (simp_all add: isDigit_def)

lemma takeWhile_digits: "list_all isDigit ds \<Longrightarrow> takeWhile isDigit (ds @ r) = ds @ takeWhile isDigit r"
  by (induction ds) auto

lemma dropWhile_digits: "list_all isDigit ds \<Longrightarrow> dropWhile isDigit (ds @ r) = dropWhile isDigit r"
  by (induction ds) auto

lemma takeWhile_digits_all: "list_all isDigit ds \<Longrightarrow> takeWhile isDigit ds = ds"
  using takeWhile_digits[of ds "[]"] by simp

lemma dropWhile_digits_all: "list_all isDigit ds \<Longrightarrow> dropWhile isDigit ds = []"
  using dropWhile_digits[of ds "[]"] by simp

lemma dropWhile_self: "xs \<noteq> [] \<Longrightarrow> \<not> P (hd xs) \<Longrightarrow> dropWhile P xs = xs"
  by (cases xs) auto

lemma trimString_id:
  assumes "s \<noteq> []" "\<not> isWhiteSpace (hd s)" "\<not> isWhiteSpace (last s)"
  shows "trimString s = s"
proof -
  have 1: "dropWhile isWhiteSpace s = s" using assms(1,2) by (rule dropWhile_self)
  have "hd (rev s) = last s" using assms(1) by (simp add: hd_rev)
  then have 2: "dropWhile isWhiteSpace (rev s) = rev s"
    using assms(1,3) by (intro dropWhile_self) simp_all
  show ?thesis by (simp add: trimString_def 1 2)
qed

lemma digits_ends:
  assumes "ds \<noteq> []" "list_all isDigit ds"
  shows "isDigit (hd ds)" "isDigit (last ds)"
  using assms by (auto simp: list_all_iff)

lemma Number_digits:
  assumes "ds \<noteq> []" "list_all isDigit ds"
  shows "Number_str ds = Num (real (digitsVal ds))"
proof -
  obtain c cs where ds: "ds = c # cs" using assms(1) by (cases ds) auto
  have c: "isDigit c" and cs: "list_all isDigit cs" using assms(2) ds by auto
  have t: "trimString ds = ds"
    using trimString_id[OF assms(1)] digits_ends[OF assms] digit_facts(1) by blast
  have h: "cs \<noteq> [] \<Longrightarrow> isDigit (hd cs)" using cs by (cases cs) auto
  have nr: "\<not> (cs \<noteq> [] \<and> (hd cs = CHR ''x'' \<or> hd cs = CHR ''X''))"
    "\<not> (cs \<noteq> [] \<and> (hd cs = CHR ''o'' \<or> hd cs = CHR ''O''))"
    "\<not> (cs \<noteq> [] \<and> (hd cs = CHR ''b'' \<or> hd cs = CHR ''B''))"
    using h digit_facts by blast+
  have ni: "c # cs \<noteq> ''Infinity''" using digit_facts(12)[OF c] by auto
  have u: "unsignedDecimal (c # cs) = Num (real (digitsVal (c # cs)))"
    unfolding unsignedDecimal_def using ni assms(2) ds
    by (simp add: takeWhile_digits_all dropWhile_digits_all Let_def exponentPart_def scale10_def c
        digitsVal_def)
  show ?thesis unfolding Number_str_def t using nr digit_facts(4,5)[OF c] u
    by (auto simp: ds Let_def)
qed

lemma tzOffset_HHMM:
  assumes "isDigit a" "isDigit b" "isDigit c" "isDigit e" "sg = CHR ''+'' \<or> sg = CHR ''-''"
  shows "tzOffset (JStr [sg, a, b, CHR '':'', c, e])
         = Num ((if sg = CHR ''-'' then - 1 else 1)
                * (real (digitsVal [a, b]) + real (digitsVal [c, e]) / 60))"
proof -
  have z: "[sg, a, b, CHR '':'', c, e] \<noteq> ''Z''" by simp
  have m: "isOffsetHHMM [sg, a, b, CHR '':'', c, e]" using assms by (auto simp: isOffsetHHMM_def)
  have "CHR '':'' \<notin> set [a, b]" "CHR '':'' \<notin> set [c, e]" using assms digit_facts(2) by auto
  then have sp: "jsSplit CHR '':'' ([a, b] @ CHR '':'' # [c, e]) = [[a, b], [c, e]]"
    by (rule jsSplit_two)
  have n: "Number_str [a, b] = Num (real (digitsVal [a, b]))"
    "Number_str [c, e] = Num (real (digitsVal [c, e]))"
    using assms by (simp_all add: Number_digits)
  show ?thesis unfolding tzOffset_def using z m sp n by (simp add: Let_def numAt_def)
qed

text \<open>A decimal number of hours: digits, with an optional fraction.\<close>

lemma unsignedPrefix_decimal:
  assumes "ip \<noteq> []" "list_all isDigit ip" "list_all isDigit fp"
    "ft = [] \<and> fp = [] \<or> ft = CHR ''.'' # fp \<and> fp \<noteq> []"
  shows "unsignedPrefix (ip @ ft) = Num (real (digitsVal ip) + real (digitsVal fp) / 10 ^ length fp)"
proof -
  obtain c cs where ip: "ip = c # cs" using assms(1) by (cases ip) auto
  have c: "isDigit c" using assms(2) ip by simp
  have ni: "take 8 (ip @ ft) \<noteq> ''Infinity''" using digit_facts(12)[OF c] by (simp add: ip)
  have tk: "takeWhile isDigit (ip @ ft) = ip" "dropWhile isDigit (ip @ ft) = ft"
    using assms(2,4) by (auto simp: takeWhile_digits dropWhile_digits not_digit)
  have tf: "takeWhile isDigit fp = fp" "dropWhile isDigit fp = []"
    using assms(3) by (simp_all add: takeWhile_digits_all dropWhile_digits_all)
  from assms(4) show ?thesis
  proof
    assume "ft = [] \<and> fp = []"
    then show ?thesis unfolding unsignedPrefix_def tk using ni assms(1)
      by (simp add: Let_def exponentPrefix_def scale10_def digitsVal_def)
  next
    assume "ft = CHR ''.'' # fp \<and> fp \<noteq> []"
    then show ?thesis unfolding unsignedPrefix_def tk using ni assms(1)
      by (simp add: Let_def exponentPrefix_def scale10_def tf)
  qed
qed

lemma parseFloat_decimal:
  assumes "ip \<noteq> []" "list_all isDigit ip" "list_all isDigit fp"
    "ft = [] \<and> fp = [] \<or> ft = CHR ''.'' # fp \<and> fp \<noteq> []"
  shows "parseFloat (ip @ ft) = Num (real (digitsVal ip) + real (digitsVal fp) / 10 ^ length fp)"
    "parseFloat (CHR ''+'' # ip @ ft)
       = Num (real (digitsVal ip) + real (digitsVal fp) / 10 ^ length fp)"
    "parseFloat (CHR ''-'' # ip @ ft)
       = Num (- (real (digitsVal ip) + real (digitsVal fp) / 10 ^ length fp))"
proof -
  obtain c cs where ip: "ip = c # cs" using assms(1) by (cases ip) auto
  have c: "isDigit c" using assms(2) ip by simp
  note cf = digit_facts[OF c]
  note u = unsignedPrefix_decimal[OF assms]
  have w: "\<not> isWhiteSpace CHR ''+''" "\<not> isWhiteSpace CHR ''-''" by (simp_all add: isWhiteSpace_def)
  show "parseFloat (ip @ ft) = Num (real (digitsVal ip) + real (digitsVal fp) / 10 ^ length fp)"
    using u cf(1,4,5) by (simp add: parseFloat_def ip)
  show "parseFloat (CHR ''+'' # ip @ ft)
       = Num (real (digitsVal ip) + real (digitsVal fp) / 10 ^ length fp)"
    using u w by (simp add: parseFloat_def)
  show "parseFloat (CHR ''-'' # ip @ ft)
       = Num (- (real (digitsVal ip) + real (digitsVal fp) / 10 ^ length fp))"
    using u w by (simp add: parseFloat_def)
qed

lemma decimal_recognised:
  assumes "ip \<noteq> []" "list_all isDigit ip" "list_all isDigit fp"
    "ft = [] \<and> fp = [] \<or> ft = CHR ''.'' # fp \<and> fp \<noteq> []"
    "sg = [] \<or> sg = ''+'' \<or> sg = ''-''"
  shows "isDecimalHours (sg @ ip @ ft)" "\<not> isOffsetHHMM (sg @ ip @ ft)" "sg @ ip @ ft \<noteq> ''Z''"
proof -
  obtain c cs where ip: "ip = c # cs" using assms(1) by (cases ip) auto
  have c: "isDigit c" using assms(2) ip by simp
  note cf = digit_facts[OF c]
  have tk: "takeWhile isDigit (ip @ ft) = ip" "dropWhile isDigit (ip @ ft) = ft"
    using assms(2,4) by (auto simp: takeWhile_digits dropWhile_digits not_digit)
  have u: "(if sg @ ip @ ft \<noteq> [] \<and> (hd (sg @ ip @ ft) = CHR ''+'' \<or> hd (sg @ ip @ ft) = CHR ''-'')
            then tl (sg @ ip @ ft) else sg @ ip @ ft) = ip @ ft"
    using assms(5) cf(4,5) by (auto simp: ip)
  have "isDecimalHours (sg @ ip @ ft)
      = (ip \<noteq> [] \<and> (ft = [] \<or> (hd ft = CHR ''.'' \<and> tl ft \<noteq> [] \<and> list_all isDigit (tl ft))))"
    by (simp only: isDecimalHours_def Let_def u tk)
  then show "isDecimalHours (sg @ ip @ ft)" using assms(1,3,4) by auto
  have nd: "\<not> isDigit CHR '':''" by (rule not_digit)
  have "CHR '':'' \<notin> set ip" "CHR '':'' \<notin> set fp"
    using assms(2,3) nd unfolding list_all_iff by blast+
  then have nc: "CHR '':'' \<notin> set (sg @ ip @ ft)"
    using assms(4,5) by auto
  show "\<not> isOffsetHHMM (sg @ ip @ ft)"
  proof
    assume "isOffsetHHMM (sg @ ip @ ft)"
    then have l: "length (sg @ ip @ ft) = 6" and k: "(sg @ ip @ ft) ! 3 = CHR '':''"
      by (simp_all add: isOffsetHHMM_def)
    have "3 < length (sg @ ip @ ft)" unfolding l by simp
    then have "(sg @ ip @ ft) ! 3 \<in> set (sg @ ip @ ft)" by (rule nth_mem)
    then show False using nc k by simp
  qed
  show "sg @ ip @ ft \<noteq> ''Z''" using assms(5) cf(15) by (auto simp: ip Cons_eq_append_conv)
qed

lemma tzOffset_decimal:
  assumes "ip \<noteq> []" "list_all isDigit ip" "list_all isDigit fp"
    "ft = [] \<and> fp = [] \<or> ft = CHR ''.'' # fp \<and> fp \<noteq> []"
  shows "tzOffset (JStr (ip @ ft)) = Num (real (digitsVal ip) + real (digitsVal fp) / 10 ^ length fp)"
    "tzOffset (JStr (CHR ''+'' # ip @ ft))
       = Num (real (digitsVal ip) + real (digitsVal fp) / 10 ^ length fp)"
    "tzOffset (JStr (CHR ''-'' # ip @ ft))
       = Num (- (real (digitsVal ip) + real (digitsVal fp) / 10 ^ length fp))"
  using parseFloat_decimal[OF assms] decimal_recognised[OF assms, of "[]"]
    decimal_recognised[OF assms, of "''+''"] decimal_recognised[OF assms, of "''-''"]
  by (simp_all add: tzOffset_def)

lemma unsignedPrefix_finite:
  assumes "takeWhile isDigit u \<noteq> []"
  shows "\<exists>v. unsignedPrefix u = Num v"
proof -
  obtain c cs where ucs: "u = c # cs" "isDigit c" using assms by (cases u) (auto split: if_splits)
  have ni: "take 8 u \<noteq> ''Infinity''" using digit_facts(12)[OF ucs(2)] by (simp add: ucs(1))
  show ?thesis unfolding unsignedPrefix_def Let_def using ni assms by simp
qed

lemma isDecimalHours_finite:
  assumes "isDecimalHours s"
  shows "\<exists>x. parseFloat s = Num x"
proof -
  define u where "u = (if s \<noteq> [] \<and> (hd s = CHR ''+'' \<or> hd s = CHR ''-'') then tl s else s)"
  have ipn: "takeWhile isDigit u \<noteq> []"
    using assms unfolding isDecimalHours_def u_def by (simp add: Let_def)
  then obtain v where v: "unsignedPrefix u = Num v" using unsignedPrefix_finite by blast
  obtain c cs where s: "s = c # cs" using ipn unfolding u_def by (cases s) auto
  have w: "\<not> isWhiteSpace CHR ''+''" "\<not> isWhiteSpace CHR ''-''" by (simp_all add: isWhiteSpace_def)
  show ?thesis
  proof (cases "c = CHR ''+'' \<or> c = CHR ''-''")
    case True
    then have "u = cs" by (simp add: u_def s)
    then show ?thesis using True v w by (auto simp: parseFloat_def s)
  next
    case False
    then have us: "u = s" by (simp add: u_def s)
    then have "isDigit c" using ipn by (auto simp: s split: if_splits)
    then have "\<not> isWhiteSpace c" by (rule digit_facts(1))
    then show ?thesis using False v us by (simp add: parseFloat_def s)
  qed
qed

lemma isOffsetHHMM_finite:
  assumes "isOffsetHHMM s"
  shows "\<exists>x. tzOffset (JStr s) = Num x"
proof -
  have "length s = 6" using assms by (simp add: isOffsetHHMM_def)
  then obtain sg a b k c e where s6: "s = [sg, a, b, k, c, e]"
    by (auto simp: numeral_eq_Suc length_Suc_conv)
  have s: "s = [sg, a, b, CHR '':'', c, e]"
    and d: "isDigit a" "isDigit b" "isDigit c" "isDigit e" "sg = CHR ''+'' \<or> sg = CHR ''-''"
    using assms unfolding s6 isOffsetHHMM_def by (simp_all add: numeral_eq_Suc)
  show ?thesis unfolding s using tzOffset_HHMM[OF d] by blast
qed

lemma tzOffset_finite: "\<exists>off. tzOffset tz = Num off"
proof (cases tz)
  case (JStr s)
  show ?thesis
  proof (cases "isOffsetHHMM s")
    case True
    then show ?thesis using isOffsetHHMM_finite JStr by simp
  next
    case False
    then show ?thesis using isDecimalHours_finite[of s] JStr by (auto simp: tzOffset_def)
  qed
qed (simp_all add: tzOffset_def)

lemma tzOffset_unrecognised: "\<not> recognisedTimezone tz \<Longrightarrow> tzOffset tz = Num 0"
  by (cases tz) (auto simp: recognisedTimezone_def tzOffset_def)

lemma digitsVal_snoc: "digitsVal (ds @ [c]) = 10 * digitsVal ds + (of_char c - 48)"
  by (simp add: digitsVal_def)

lemma hour_formula:
  assumes "CHR '':'' \<notin> set hs" "CHR '':'' \<notin> set ms" "Number_str hs = Num H"
    "Number_str ms = Num M" "tzOffset tz = Num off"
  shows "map_sum id hour (parseDateTime (JStr d) (JStr (hs @ CHR '':'' # ms)) tz)
            = Inr (Num (H + M / 60 - off))"
proof -
  have "jsSplit CHR '':'' (hs @ CHR '':'' # ms) = [hs, ms]" using assms(1,2) by (rule jsSplit_two)
  then show ?thesis using assms(3,4,5) by (simp add: parseDateTime_def numAt_def Let_def)
qed

text \<open>
  C6. Local time 10:00 with timezone \<^verbatim>\<open>+05:30\<close> gives the hour 4.5. The hour is
  the local decimal hour minus the offset of the timezone: the offset is always a number
  \<open>off\<close>, and when the two parts of the time are the numbers \<open>H\<close> and \<open>M\<close> the
  hour is \<open>H + M/60 - off\<close>; a part written in digits is the number they spell. The
  offset is 0 for \<^verbatim>\<open>Z\<close>, the number itself for a number, \<open>HH + MM/60\<close> with its
  sign for a signed \<^verbatim>\<open>HH:MM\<close>, and the decimal number with its sign for a string of
  digits with an optional fraction. A timezone value of no recognised form has offset 0,
  and \<^verbatim>\<open>parseDateTime\<close> returns (no exception) with the local decimal hour.
\<close>

theorem parseDateTime_hour:
  "map_sum id hour (parseDateTime (JStr d) (JStr ''10:00'') (JStr ''+05:30'')) = Inr (Num (9 / 2))
   \<and> (\<exists>off. tzOffset tz = Num off
        \<and> (CHR '':'' \<notin> set hs \<and> CHR '':'' \<notin> set ms \<and> Number_str hs = Num H
            \<and> Number_str ms = Num M
           \<longrightarrow> map_sum id hour (parseDateTime (JStr d) (JStr (hs @ CHR '':'' # ms)) tz)
                 = Inr (Num (H + M / 60 - off))))
   \<and> (ip \<noteq> [] \<and> list_all isDigit ip \<longrightarrow> Number_str ip = Num (real (digitsVal ip)))
   \<and> digitsVal [] = 0 \<and> digitsVal (ds @ [c]) = 10 * digitsVal ds + (of_char c - 48)
   \<and> tzOffset (JStr ''Z'') = Num 0
   \<and> tzOffset (JNum n) = Num n
   \<and> (isDigit a \<and> isDigit b \<and> isDigit c \<and> isDigit e \<longrightarrow>
        tzOffset (JStr [CHR ''+'', a, b, CHR '':'', c, e])
          = Num (real (digitsVal [a, b]) + real (digitsVal [c, e]) / 60)
      \<and> tzOffset (JStr [CHR ''-'', a, b, CHR '':'', c, e])
          = Num (- (real (digitsVal [a, b]) + real (digitsVal [c, e]) / 60)))
   \<and> (ip \<noteq> [] \<and> list_all isDigit ip \<longrightarrow>
        tzOffset (JStr ip) = Num (real (digitsVal ip))
      \<and> tzOffset (JStr (CHR ''+'' # ip)) = Num (real (digitsVal ip))
      \<and> tzOffset (JStr (CHR ''-'' # ip)) = Num (- real (digitsVal ip)))
   \<and> (ip \<noteq> [] \<and> list_all isDigit ip \<and> fp \<noteq> [] \<and> list_all isDigit fp \<longrightarrow>
        tzOffset (JStr (ip @ CHR ''.'' # fp))
          = Num (real (digitsVal ip) + real (digitsVal fp) / 10 ^ length fp)
      \<and> tzOffset (JStr (CHR ''+'' # ip @ CHR ''.'' # fp))
          = Num (real (digitsVal ip) + real (digitsVal fp) / 10 ^ length fp)
      \<and> tzOffset (JStr (CHR ''-'' # ip @ CHR ''.'' # fp))
          = Num (- (real (digitsVal ip) + real (digitsVal fp) / 10 ^ length fp)))
   \<and> (\<not> recognisedTimezone tz
      \<longrightarrow> tzOffset tz = Num 0
          \<and> (\<exists>r. parseDateTime (JStr d) (JStr t) tz = Inr r
                 \<and> hour r = num_add (toNumber (numAt (jsSplit CHR '':'' t) 0))
                               (num_div60 (toNumber (numAt (jsSplit CHR '':'' t) 1)))))"
proof -
  have 1: "map_sum id hour (parseDateTime (JStr d) (JStr ''10:00'') (JStr ''+05:30''))
      = Inr (Num (9 / 2))"
  proof -
    have dg: "isDigit CHR ''0''" "isDigit CHR ''1''" "isDigit CHR ''3''" "isDigit CHR ''5''"
      by (simp_all add: isDigit_def)
    have o: "tzOffset (JStr ''+05:30'') = Num (11 / 2)"
      using tzOffset_HHMM[of "CHR ''0''" "CHR ''5''" "CHR ''3''" "CHR ''0''" "CHR ''+''"] dg
      by (simp add: digitsVal_def)
    have n: "Number_str ''10'' = Num 10" "Number_str ''00'' = Num 0"
      using Number_digits[of "''10''"] Number_digits[of "''00''"] dg by (simp_all add: digitsVal_def)
    show ?thesis using hour_formula[of "''10''" "''00''" 10 0 "JStr ''+05:30''" "11 / 2" d] n o
      by simp
  qed
  obtain off where off: "tzOffset tz = Num off" using tzOffset_finite by blast
  have 2: "\<exists>off. tzOffset tz = Num off
        \<and> (CHR '':'' \<notin> set hs \<and> CHR '':'' \<notin> set ms \<and> Number_str hs = Num H
            \<and> Number_str ms = Num M
           \<longrightarrow> map_sum id hour (parseDateTime (JStr d) (JStr (hs @ CHR '':'' # ms)) tz)
                 = Inr (Num (H + M / 60 - off)))"
    using off hour_formula[of hs ms H M tz off d] by blast
  have 3: "ip \<noteq> [] \<and> list_all isDigit ip \<longrightarrow> Number_str ip = Num (real (digitsVal ip))"
    using Number_digits by blast
  have 4: "digitsVal [] = 0" "digitsVal (ds @ [c]) = 10 * digitsVal ds + (of_char c - 48)"
    by (simp_all add: digitsVal_def)
  have 5: "tzOffset (JStr ''Z'') = Num 0" "tzOffset (JNum n) = Num n"
    by (simp_all add: tzOffset_def)
  have 6: "isDigit a \<and> isDigit b \<and> isDigit c \<and> isDigit e \<longrightarrow>
        tzOffset (JStr [CHR ''+'', a, b, CHR '':'', c, e])
          = Num (real (digitsVal [a, b]) + real (digitsVal [c, e]) / 60)
      \<and> tzOffset (JStr [CHR ''-'', a, b, CHR '':'', c, e])
          = Num (- (real (digitsVal [a, b]) + real (digitsVal [c, e]) / 60))"
    using tzOffset_HHMM[of a b c e "CHR ''+''"] tzOffset_HHMM[of a b c e "CHR ''-''"] by simp
  have 7: "ip \<noteq> [] \<and> list_all isDigit ip \<longrightarrow>
        tzOffset (JStr ip) = Num (real (digitsVal ip))
      \<and> tzOffset (JStr (CHR ''+'' # ip)) = Num (real (digitsVal ip))
      \<and> tzOffset (JStr (CHR ''-'' # ip)) = Num (- real (digitsVal ip))"
    using tzOffset_decimal[of ip "[]" "[]"] by (simp add: digitsVal_def)
  have 8: "ip \<noteq> [] \<and> list_all isDigit ip \<and> fp \<noteq> [] \<and> list_all isDigit fp \<longrightarrow>
        tzOffset (JStr (ip @ CHR ''.'' # fp))
          = Num (real (digitsVal ip) + real (digitsVal fp) / 10 ^ length fp)
      \<and> tzOffset (JStr (CHR ''+'' # ip @ CHR ''.'' # fp))
          = Num (real (digitsVal ip) + real (digitsVal fp) / 10 ^ length fp)
      \<and> tzOffset (JStr (CHR ''-'' # ip @ CHR ''.'' # fp))
          = Num (- (real (digitsVal ip) + real (digitsVal fp) / 10 ^ length fp))"
    using tzOffset_decimal[of ip fp "CHR ''.'' # fp"] by simp
  have 9: "\<not> recognisedTimezone tz
      \<longrightarrow> tzOffset tz = Num 0
          \<and> (\<exists>r. parseDateTime (JStr d) (JStr t) tz = Inr r
                 \<and> hour r = num_add (toNumber (numAt (jsSplit CHR '':'' t) 0))
                               (num_div60 (toNumber (numAt (jsSplit CHR '':'' t) 1))))"
  proof
    assume u: "\<not> recognisedTimezone tz"
    have z: "num_sub x (Num 0) = x" for x by (cases x) simp_all
    show "tzOffset tz = Num 0
          \<and> (\<exists>r. parseDateTime (JStr d) (JStr t) tz = Inr r
                 \<and> hour r = num_add (toNumber (numAt (jsSplit CHR '':'' t) 0))
                               (num_div60 (toNumber (numAt (jsSplit CHR '':'' t) 1))))"
      using tzOffset_unrecognised[OF u] by (simp add: parseDateTime_def Let_def z)
  qed
  show ?thesis using 1 2 3 4 5 6 7 8 9 by blast
qed

theorem parseDateTime_hour_witness:
  "map_sum id hour (parseDateTime (JStr ''2000-01-01'') (JStr ''23:45'') (JNum 2)) = Inr (Num (87 / 4))
   \<and> tzOffset (JStr ''-05:30'') = Num (- (11 / 2))
   \<and> tzOffset (JStr ''-3'') = Num (- 3)
   \<and> tzOffset (JStr ''5.75'') = Num (23 / 4)
   \<and> \<not> recognisedTimezone (JStr ''Europe/Berlin'')
   \<and> tzOffset (JStr ''Europe/Berlin'') = Num 0"
proof -
  have dg: "isDigit CHR ''0''" "isDigit CHR ''2''" "isDigit CHR ''3''" "isDigit CHR ''4''"
    "isDigit CHR ''5''" "isDigit CHR ''7''"
    by (simp_all add: isDigit_def)
  have u: "\<not> recognisedTimezone (JStr ''Europe/Berlin'')"
    by (simp add: recognisedTimezone_def isOffsetHHMM_def isDecimalHours_def isDigit_def)
  note t = parseDateTime_hour[where d = "''2000-01-01''" and tz = "JNum 2" and hs = "''23''"
      and ms = "''45''" and H = 23 and M = 45 and ip = "''3''" and ds = "[]" and n = 2
      and a = "CHR ''0''" and b = "CHR ''5''" and c = "CHR ''3''" and e = "CHR ''0''"
      and fp = "''75''" and t = "''10:00''"]
  note t2 = parseDateTime_hour[where d = "''2000-01-01''" and tz = "JStr ''Europe/Berlin''"
      and hs = "''23''" and ms = "''45''" and H = 23 and M = 45 and ip = "''5''" and ds = "[]"
      and n = 2 and a = "CHR ''0''" and b = "CHR ''5''" and c = "CHR ''3''" and e = "CHR ''0''"
      and fp = "''75''" and t = "''10:00''"]
  have n: "Number_str ''23'' = Num 23" "Number_str ''45'' = Num 45"
    using parseDateTime_hour[where ip = "''23''"] parseDateTime_hour[where ip = "''45''"] dg
    by (simp_all add: digitsVal_def)
  have 1: "map_sum id hour (parseDateTime (JStr ''2000-01-01'') (JStr ''23:45'') (JNum 2))
      = Inr (Num (87 / 4))"
    using t n by auto
  have 2: "tzOffset (JStr ''-05:30'') = Num (- (11 / 2))" using t dg by (simp add: digitsVal_def)
  have 3: "tzOffset (JStr ''-3'') = Num (- 3)" using t dg by (simp add: digitsVal_def)
  have 4: "tzOffset (JStr ''5.75'') = Num (23 / 4)" using t2 dg by (simp add: digitsVal_def)
  have 5: "tzOffset (JStr ''Europe/Berlin'') = Num 0" using t2 u by blast
  show ?thesis using 1 2 3 4 5 u by blast
qed

section \<open>The house scan\<close>

lemma houseScan_Some:
  "houseScan cs deg h = Some r \<Longrightarrow>
     h \<le> r \<and> r \<le> 12 \<and> inHouse cs deg r \<and> (\<forall>k. h \<le> k \<and> k < r \<longrightarrow> \<not> inHouse cs deg k)"
proof (induction cs deg h rule: houseScan.induct)
  case (1 cs deg h)
  show ?case
  proof (cases "h \<le> 12 \<and> \<not> inHouse cs deg h")
    case True
    then have "houseScan cs deg (h + 1) = Some r"
      using "1.prems" by (subst (asm) houseScan.simps) simp
    with "1.IH" True
    have ih: "h + 1 \<le> r \<and> r \<le> 12 \<and> inHouse cs deg r
          \<and> (\<forall>k. h + 1 \<le> k \<and> k < r \<longrightarrow> \<not> inHouse cs deg k)" by simp
    have "\<not> inHouse cs deg k" if "h \<le> k \<and> k < r" for k
    proof (cases "k = h")
      case True
      then show ?thesis using \<open>h \<le> 12 \<and> \<not> inHouse cs deg h\<close> by simp
    next
      case False
      then show ?thesis using that ih by simp
    qed
    then show ?thesis using ih by simp
  next
    case False
    then show ?thesis using "1.prems" by (subst (asm) houseScan.simps) (auto split: if_splits)
  qed
qed

lemma houseScan_None:
  "houseScan cs deg h = None \<Longrightarrow> h \<le> k \<Longrightarrow> k \<le> 12 \<Longrightarrow> \<not> inHouse cs deg k"
proof (induction cs deg h rule: houseScan.induct)
  case (1 cs deg h)
  have h12: "h \<le> 12" using "1.prems" by simp
  have nin: "\<not> inHouse cs deg h"
    using "1.prems"(1) h12 by (subst (asm) houseScan.simps) (auto split: if_splits)
  have nxt: "houseScan cs deg (h + 1) = None"
    using "1.prems"(1) h12 nin by (subst (asm) houseScan.simps) simp
  show ?case
  proof (cases "k = h")
    case True
    then show ?thesis using nin by simp
  next
    case False
    then have "h + 1 \<le> k" using "1.prems" by simp
    then show ?thesis using "1.IH"[OF h12 nin nxt _ "1.prems"(3)] by simp
  qed
qed

text \<open>A cycle of cusps none of whose intervals holds L would be strictly increasing.\<close>

lemma misses_forward:
  "(\<And>i. i < n \<Longrightarrow> misses L (f i) (f (Suc i))) \<Longrightarrow> f 0 \<le> L \<Longrightarrow> f n \<le> L \<and> (0 < n \<longrightarrow> f 0 < f n)"
proof (induction n)
  case 0
  then show ?case by simp
next
  case (Suc n)
  then have ih: "f n \<le> L \<and> (0 < n \<longrightarrow> f 0 < f n)" by simp
  have "misses L (f n) (f (Suc n))" using Suc.prems(1) by simp
  then have "f n < f (Suc n) \<and> f (Suc n) \<le> L" using ih by (auto simp: misses_def)
  then show ?case using ih by (cases n) auto
qed

lemma misses_backward:
  "(\<And>i. i < n \<Longrightarrow> misses L (f i) (f (Suc i))) \<Longrightarrow> L < f n \<Longrightarrow> L < f 0 \<and> (0 < n \<longrightarrow> f 0 < f n)"
proof (induction n)
  case 0
  then show ?case by simp
next
  case (Suc n)
  have "misses L (f n) (f (Suc n))" using Suc.prems(1) by simp
  then have s: "f n < f (Suc n) \<and> L < f n" using Suc.prems(2) by (auto simp: misses_def)
  then have "L < f 0 \<and> (0 < n \<longrightarrow> f 0 < f n)" using Suc by simp
  then show ?case using s by (cases n) auto
qed

lemma cycle_hit:
  assumes "f n = f 0" "0 < n"
  shows "\<exists>i<n. \<not> misses L (f i) (f (Suc i))"
proof (rule ccontr)
  assume "\<not> ?thesis"
  then have m: "\<And>i. i < n \<Longrightarrow> misses L (f i) (f (Suc i))" by auto
  show False
  proof (cases "f 0 \<le> L")
    case True
    from misses_forward[of n L f, OF m True] assms show False by simp
  next
    case False
    then have "L < f n" using assms by simp
    from misses_backward[of n L f, OF m this] assms show False by simp
  qed
qed

lemma inHouse_unfold:
  assumes "length cs = 12" "1 \<le> h" "h \<le> 12"
  shows "inHouse cs (Some L) h =
           (if cs ! (h - 1) < cs ! (h mod 12) then cs ! (h - 1) \<le> L \<and> L < cs ! (h mod 12)
            else cs ! (h - 1) \<le> L \<or> L < cs ! (h mod 12))"
  using assms by (auto simp: inHouse_def cuspAt_def Let_def)

lemma some_house:
  assumes "length cs = 12"
  shows "\<exists>h. 1 \<le> h \<and> h \<le> 12 \<and> inHouse cs (Some L) h"
proof -
  define f where "f i = cs ! (i mod 12)" for i
  have "f 12 = f 0" by (simp add: f_def)
  from cycle_hit[of f 12 L, OF this] obtain i where i: "i < 12" "\<not> misses L (f i) (f (Suc i))"
    by auto
  have a: "f i = cs ! (Suc i - 1)" using i(1) by (simp add: f_def)
  have b: "f (Suc i) = cs ! (Suc i mod 12)" by (simp add: f_def)
  have "inHouse cs (Some L) (Suc i)"
    using i(2) unfolding a b misses_def
    by (subst inHouse_unfold[OF assms]) (use i(1) in auto)
  then show ?thesis using i(1) by (intro exI[of _ "Suc i"]) simp
qed

lemma PLANETS_length: "length PLANETS = 12" by (simp add: PLANETS_def)

lemma getAllPositions_houses:
  "map (\<lambda>(k, p). house p) (getAllPositions swe jd housesData)
     = map (\<lambda>(name, planet).
              findHouse (selectCusps housesData) (toNum (longitude (swe_calc_ut swe jd planet))))
         PLANETS"
  by (simp add: getAllPositions_def Let_def case_prod_unfold comp_def)

text \<open>
  C2. With a sequence of 12 cusps the scan over the houses 1..12 gives every longitude
  exactly one house: the result is a house \<open>h\<close> in 1..12, the interval of \<open>h\<close> holds
  the longitude (an AND-range when its start is below its end, an OR-range otherwise), and
  no earlier house does. Without cusps the house is absent, and \<^verbatim>\<open>getAllPositions\<close>
  returns all twelve bodies with no house; in general the house it stores for a body is
  the result of this scan on the cusps it selected.
\<close>

theorem house_scan:
  "(length cs = 12 \<longrightarrow>
      (\<exists>h. findHouse (Some cs) (Some L) = Some h \<and> 1 \<le> h \<and> h \<le> 12
           \<and> (if cs ! (h - 1) < cs ! (h mod 12) then cs ! (h - 1) \<le> L \<and> L < cs ! (h mod 12)
              else cs ! (h - 1) \<le> L \<or> L < cs ! (h mod 12))
           \<and> (\<forall>k. 1 \<le> k \<and> k < h \<longrightarrow> \<not> inHouse cs (Some L) k)))
   \<and> findHouse None deg = None
   \<and> map (\<lambda>(k, p). house p) (getAllPositions swe jd None) = replicate 12 None
   \<and> map (\<lambda>(k, p). house p) (getAllPositions swe jd housesData)
       = map (\<lambda>(name, planet).
                findHouse (selectCusps housesData) (toNum (longitude (swe_calc_ut swe jd planet))))
           PLANETS"
proof (intro conjI impI)
  assume len: "length cs = 12"
  from some_house[OF len] obtain k where k: "1 \<le> k" "k \<le> 12" "inHouse cs (Some L) k" by auto
  have "houseScan cs (Some L) 1 \<noteq> None" using houseScan_None[of cs "Some L" 1 k] k by auto
  then obtain h where h: "houseScan cs (Some L) 1 = Some h" by auto
  note p = houseScan_Some[OF h]
  have "inHouse cs (Some L) h" using p by simp
  then have "if cs ! (h - 1) < cs ! (h mod 12) then cs ! (h - 1) \<le> L \<and> L < cs ! (h mod 12)
              else cs ! (h - 1) \<le> L \<or> L < cs ! (h mod 12)"
    using inHouse_unfold[OF len, of h L] p by simp
  then show "\<exists>h. findHouse (Some cs) (Some L) = Some h \<and> 1 \<le> h \<and> h \<le> 12
           \<and> (if cs ! (h - 1) < cs ! (h mod 12) then cs ! (h - 1) \<le> L \<and> L < cs ! (h mod 12)
              else cs ! (h - 1) \<le> L \<or> L < cs ! (h mod 12))
           \<and> (\<forall>k. 1 \<le> k \<and> k < h \<longrightarrow> \<not> inHouse cs (Some L) k)"
    using h p by (intro exI[of _ h]) (simp add: findHouse_def)
next
  show "findHouse None deg = None" by (simp add: findHouse_def)
next
  show "map (\<lambda>(k, p). house p) (getAllPositions swe jd None) = replicate 12 None"
    by (simp add: getAllPositions_def selectCusps_def findHouse_def PLANETS_def Let_def
        numeral_eq_Suc)
next
  show "map (\<lambda>(k, p). house p) (getAllPositions swe jd housesData)
       = map (\<lambda>(name, planet).
                findHouse (selectCusps housesData) (toNum (longitude (swe_calc_ut swe jd planet))))
           PLANETS"
    by (rule getAllPositions_houses)
qed

theorem house_scan_witness:
  "(\<exists>h. findHouse (Some [20, 50, 80, 110, 140, 170, 200, 230, 260, 290, 320, 350]) (Some 355)
          = Some h \<and> 1 \<le> h \<and> h \<le> 12)
   \<and> findHouse (Some [20, 50, 80, 110, 140, 170, 200, 230, 260, 290, 320, 350]) (Some 355)
       = Some 12
   \<and> findHouse (Some [20, 50, 80, 110, 140, 170, 200, 230, 260, 290, 320, 350]) (Some 95)
       = Some 3"
  using house_scan[of "[20, 50, 80, 110, 140, 170, 200, 230, 260, 290, 320, 350]" 355]
  by (simp add: findHouse_def houseScan.simps inHouse_def cuspAt_def)

section \<open>The distributions\<close>


lemma countOf_incr_other: "c \<noteq> k \<Longrightarrow> countOf (incr cnts k) c = countOf cnts c"
  by (induction cnts) (auto simp: countOf_def)

lemma countOf_incr_same: "countOf cnts k = Num x \<Longrightarrow> countOf (incr cnts k) k = Num (x + 1)"
  by (induction cnts) (auto simp: countOf_def split: if_splits)



lemma dom_tables: "fst ` set ELEMENTS = set SIGNS" "fst ` set MODES = set SIGNS"
proof -
  have "fst ` set ELEMENTS \<subseteq> set SIGNS" "set SIGNS \<subseteq> fst ` set ELEMENTS"
    by (simp_all add: ELEMENTS_def SIGNS_def)
  then show "fst ` set ELEMENTS = set SIGNS" by (rule subset_antisym)
  have "fst ` set MODES \<subseteq> set SIGNS" "set SIGNS \<subseteq> fst ` set MODES"
    by (simp_all add: MODES_def SIGNS_def)
  then show "fst ` set MODES = set SIGNS" by (rule subset_antisym)
qed



lemma tally_count:
  assumes "\<forall>(s, v) \<in> set T. s \<noteq> [] \<and> v \<noteq> []" "\<forall>k. toPropertyKey (Inherited k) \<noteq> c"
    "countOf cnts c = Num x"
  shows "countOf (tally T cnts p) c = Num (x + (if hit T c (k, p) then 1 else 0))"
proof (cases "sign p")
  case None
  then show ?thesis using assms(3) by (simp add: tally_def hit_def)
next
  case (Some s)
  show ?thesis
  proof (cases "map_of T s")
    case None
    then have h: "\<not> hit T c (k, p)" using Some by (simp add: hit_def)
    show ?thesis
    proof (cases "s \<noteq> [] \<and> s \<in> set objectPrototypeKeys")
      case True
      then have "tally T cnts p = incr cnts (toPropertyKey (Inherited s))"
        using Some None by (simp add: tally_def jsGet_def)
      moreover have ne: "c \<noteq> toPropertyKey (Inherited s)" using assms(2) by blast
      ultimately have "countOf (tally T cnts p) c = countOf cnts c"
        using countOf_incr_other[OF ne] by presburger
      then show ?thesis using h assms(3) by simp
    next
      case False
      then have "tally T cnts p = cnts" using Some None by (auto simp: tally_def jsGet_def)
      then show ?thesis using h assms(3) by simp
    qed
  next
    case (Some v)
    then have "(s, v) \<in> set T" by (rule map_of_SomeD)
    then have ne: "s \<noteq> []" "v \<noteq> []" using assms(1) by auto
    then have t: "tally T cnts p = incr cnts v"
      using Some \<open>sign p = Some s\<close> by (simp add: tally_def jsGet_def)
    show ?thesis
    proof (cases "v = c")
      case True
      then show ?thesis using t Some \<open>sign p = Some s\<close> assms(3)
        by (simp add: hit_def countOf_incr_same)
    next
      case False
      then show ?thesis using t Some \<open>sign p = Some s\<close> assms(3)
        by (simp add: hit_def countOf_incr_other)
    qed
  qed
qed

lemma distLoop_count:
  assumes "\<forall>(s, v) \<in> set T. s \<noteq> [] \<and> v \<noteq> []" "\<forall>k. toPropertyKey (Inherited k) \<noteq> c"
    "countOf cnts c = Num x"
  shows "countOf (distLoop T ps cnts) c = Num (x + real (length (filter (hit T c) ps)))"
  using assms(3)
proof (induction ps arbitrary: cnts x)
  case Nil
  then show ?case by simp
next
  case (Cons kp ps)
  obtain k p where kp: "kp = (k, p)" by (cases kp)
  from tally_count[OF assms(1,2) Cons.prems, of p k]
  have "countOf (tally T cnts p) c = Num (x + (if hit T c (k, p) then 1 else 0))" .
  from Cons.IH[OF this] show ?case using kp by simp
qed

lemma tables_nonempty:
  "\<forall>(s, v) \<in> set ELEMENTS. s \<noteq> [] \<and> v \<noteq> []" "\<forall>(s, v) \<in> set MODES. s \<noteq> [] \<and> v \<noteq> []"
  by (simp_all add: ELEMENTS_def MODES_def)

lemma inherited_key_hd:
  "hd (toPropertyKey (Inherited k)) = CHR ''['' \<or> hd (toPropertyKey (Inherited k)) = CHR ''f''"
  by simp

lemma inherited_key_not_category:
  assumes "c \<in> {''Fire'', ''Water'', ''Earth'', ''Air'', ''Cardinal'', ''Fixed'', ''Mutable''}"
  shows "toPropertyKey (Inherited k) \<noteq> c"
proof
  assume e: "toPropertyKey (Inherited k) = c"
  from assms have "hd c \<noteq> CHR ''['' \<and> hd c \<noteq> CHR ''f''" by auto
  then show False using inherited_key_hd[of k] unfolding e by simp
qed

lemma hit_sum_ELEMENTS:
  "(if hit ELEMENTS ''Fire'' kp then 1 else 0) + (if hit ELEMENTS ''Earth'' kp then 1 else 0)
     + (if hit ELEMENTS ''Air'' kp then 1 else 0) + (if hit ELEMENTS ''Water'' kp then 1 else 0)
   = (if zodiac kp then 1 else (0::nat))"
proof (cases "sign (snd kp)")
  case None
  then show ?thesis by (simp add: hit_def zodiac_def)
next
  case (Some s)
  show ?thesis
  proof (cases "s \<in> set SIGNS")
    case True
    then have "s = ''Aries'' \<or> s = ''Taurus'' \<or> s = ''Gemini'' \<or> s = ''Cancer'' \<or> s = ''Leo''
        \<or> s = ''Virgo'' \<or> s = ''Libra'' \<or> s = ''Scorpio'' \<or> s = ''Sagittarius''
        \<or> s = ''Capricorn'' \<or> s = ''Aquarius'' \<or> s = ''Pisces''"
      by (simp add: SIGNS_def)
    then show ?thesis using Some
      by (elim disjE) (simp_all add: hit_def zodiac_def SIGNS_def ELEMENTS_def)
  next
    case False
    then have "map_of ELEMENTS s = None" using dom_tables(1) by (simp add: map_of_eq_None_iff)
    then show ?thesis using Some False by (simp add: hit_def zodiac_def)
  qed
qed

lemma hit_sum_MODES:
  "(if hit MODES ''Cardinal'' kp then 1 else 0) + (if hit MODES ''Fixed'' kp then 1 else 0)
     + (if hit MODES ''Mutable'' kp then 1 else 0)
   = (if zodiac kp then 1 else (0::nat))"
proof (cases "sign (snd kp)")
  case None
  then show ?thesis by (simp add: hit_def zodiac_def)
next
  case (Some s)
  show ?thesis
  proof (cases "s \<in> set SIGNS")
    case True
    then have "s = ''Aries'' \<or> s = ''Taurus'' \<or> s = ''Gemini'' \<or> s = ''Cancer'' \<or> s = ''Leo''
        \<or> s = ''Virgo'' \<or> s = ''Libra'' \<or> s = ''Scorpio'' \<or> s = ''Sagittarius''
        \<or> s = ''Capricorn'' \<or> s = ''Aquarius'' \<or> s = ''Pisces''"
      by (simp add: SIGNS_def)
    then show ?thesis using Some
      by (elim disjE) (simp_all add: hit_def zodiac_def SIGNS_def MODES_def)
  next
    case False
    then have "map_of MODES s = None" using dom_tables(2) by (simp add: map_of_eq_None_iff)
    then show ?thesis using Some False by (simp add: hit_def zodiac_def)
  qed
qed

lemma filter_length_step:
  "length (filter P (x # xs)) = (if P x then 1 else 0) + length (filter P xs)"
  by simp

lemma hits_ELEMENTS:
  "length (filter (hit ELEMENTS ''Fire'') ps) + length (filter (hit ELEMENTS ''Earth'') ps)
     + length (filter (hit ELEMENTS ''Air'') ps) + length (filter (hit ELEMENTS ''Water'') ps)
   = length (filter zodiac ps)"
proof (induction ps)
  case Nil
  then show ?case by simp
next
  case (Cons kp ps)
  show ?case unfolding filter_length_step using Cons hit_sum_ELEMENTS[of kp] by linarith
qed

lemma hits_MODES:
  "length (filter (hit MODES ''Cardinal'') ps) + length (filter (hit MODES ''Fixed'') ps)
     + length (filter (hit MODES ''Mutable'') ps)
   = length (filter zodiac ps)"
proof (induction ps)
  case Nil
  then show ?case by simp
next
  case (Cons kp ps)
  show ?case unfolding filter_length_step using Cons hit_sum_MODES[of kp] by linarith
qed

lemma initial_counts:
  "countOf [(''Fire'', Num 0), (''Water'', Num 0), (''Earth'', Num 0), (''Air'', Num 0)] c
     = (if c \<in> {''Fire'', ''Water'', ''Earth'', ''Air''} then Num 0 else NaN)"
  "countOf [(''Cardinal'', Num 0), (''Fixed'', Num 0), (''Mutable'', Num 0)] c
     = (if c \<in> {''Cardinal'', ''Fixed'', ''Mutable''} then Num 0 else NaN)"
  by (simp_all add: countOf_def)

lemma elemental_count:
  assumes "c \<in> {''Fire'', ''Water'', ''Earth'', ''Air''}"
  shows "countOf (getElementalDistribution ps) c = Num (real (length (filter (hit ELEMENTS c) ps)))"
proof -
  have k: "\<forall>k. toPropertyKey (Inherited k) \<noteq> c"
    using inherited_key_not_category[of c] assms by blast
  have z: "countOf [(''Fire'', Num 0), (''Water'', Num 0), (''Earth'', Num 0), (''Air'', Num 0)] c
             = Num 0"
    using assms initial_counts(1)[of c] by presburger
  show ?thesis unfolding getElementalDistribution_def
    using distLoop_count[OF tables_nonempty(1) k z, of ps] by simp
qed

lemma modal_count:
  assumes "c \<in> {''Cardinal'', ''Fixed'', ''Mutable''}"
  shows "countOf (getModalDistribution ps) c = Num (real (length (filter (hit MODES c) ps)))"
proof -
  have k: "\<forall>k. toPropertyKey (Inherited k) \<noteq> c"
    using inherited_key_not_category[of c] assms by blast
  have z: "countOf [(''Cardinal'', Num 0), (''Fixed'', Num 0), (''Mutable'', Num 0)] c = Num 0"
    using assms initial_counts(2)[of c] by presburger
  show ?thesis unfolding getModalDistribution_def
    using distLoop_count[OF tables_nonempty(2) k z, of ps] by simp
qed

text \<open>
  C10. For every mapping from bodies to positions the counts of the four elements add up to
  the same number as the counts of the three modes: both sums are the number of entries
  whose sign is one of the twelve signs, the element table and the mode table having exactly
  the twelve signs as their keys.
\<close>

theorem distribution_sums_agree:
  "sumCounts (getElementalDistribution ps) [''Fire'', ''Earth'', ''Air'', ''Water'']
     = Num (real (length (filter zodiac ps)))
   \<and> sumCounts (getModalDistribution ps) [''Cardinal'', ''Fixed'', ''Mutable'']
     = Num (real (length (filter zodiac ps)))
   \<and> fst ` set ELEMENTS = set SIGNS \<and> fst ` set MODES = set SIGNS"
proof -
  have e: "sumCounts (getElementalDistribution ps) [''Fire'', ''Earth'', ''Air'', ''Water'']
     = Num (real (length (filter (hit ELEMENTS ''Fire'') ps)
        + length (filter (hit ELEMENTS ''Earth'') ps)
        + length (filter (hit ELEMENTS ''Air'') ps) + length (filter (hit ELEMENTS ''Water'') ps)))"
    by (simp add: sumCounts_def elemental_count)
  have m: "sumCounts (getModalDistribution ps) [''Cardinal'', ''Fixed'', ''Mutable'']
     = Num (real (length (filter (hit MODES ''Cardinal'') ps)
        + length (filter (hit MODES ''Fixed'') ps) + length (filter (hit MODES ''Mutable'') ps)))"
    by (simp add: sumCounts_def modal_count)
  show ?thesis using e m dom_tables unfolding hits_ELEMENTS hits_MODES by simp
qed

theorem distribution_sums_agree_witness:
  "sumCounts (getElementalDistribution
       [(''Sun'', pos (Some ''Leo'')), (''Moon'', pos None), (''Mars'', pos (Some ''Pisces'')),
        (''Pluto'', pos (Some ''toString''))]) [''Fire'', ''Earth'', ''Air'', ''Water''] = Num 2
   \<and> sumCounts (getModalDistribution
       [(''Sun'', pos (Some ''Leo'')), (''Moon'', pos None), (''Mars'', pos (Some ''Pisces'')),
        (''Pluto'', pos (Some ''toString''))]) [''Cardinal'', ''Fixed'', ''Mutable''] = Num 2"
  using distribution_sums_agree[of "[(''Sun'', pos (Some ''Leo'')), (''Moon'', pos None),
        (''Mars'', pos (Some ''Pisces'')), (''Pluto'', pos (Some ''toString''))]"]
  by (simp add: zodiac_def pos_def SIGNS_def)






text \<open>
  What the hypothesis on the signs leaves out: a sign that names an inherited member, which
  no lookup of the program produces, is found by the guard of the loop and counted under a
  key of its own.
\<close>

lemma distribution_extra_key:
  "length (getElementalDistribution [(''Sun'', pos (Some ''constructor''))]) = 5
   \<and> map fst (getElementalDistribution [(''Sun'', pos (Some ''constructor''))])
     = [''Fire'', ''Water'', ''Earth'', ''Air'', ''function Object() { [native code] }'']
   \<and> countOf (getElementalDistribution [(''Sun'', pos (Some ''constructor''))])
        ''function Object() { [native code] }'' = NaN
   \<and> map fst (getModalDistribution [(''Sun'', pos (Some ''constructor''))])
     = [''Cardinal'', ''Fixed'', ''Mutable'', ''function Object() { [native code] }'']"
  by (simp add: getElementalDistribution_def getModalDistribution_def tally_def pos_def jsGet_def
      ELEMENTS_def MODES_def objectPrototypeKeys_def countOf_def)

section \<open>At most one aspect for a pair\<close>

lemma abs_window: "\<bar>d - c\<bar> \<le> r \<longleftrightarrow> c - r \<le> d \<and> d \<le> c + (r::real)"
  by auto

lemma matchAspects_between: "m \<in> set (matchAspects asps names d) \<Longrightarrow> between m = names"
  by (induction asps) (auto split: if_splits)

lemma pairAspects_between: "m \<in> set (pairAspects names a b) \<Longrightarrow> between m = names"
  by (auto simp: pairAspects_def matchAspects_between split: option.splits)

lemma catalog_windows:
  "map aspect.type (matchAspects aspectTypes names d) =
     (if - 8 \<le> d \<and> d \<le> 8 then [''Conjunction'']
      else if 54 \<le> d \<and> d \<le> 66 then [''Sextile'']
      else if 82 \<le> d \<and> d \<le> 98 then [''Square'']
      else if 112 \<le> d \<and> d \<le> 128 then [''Trine'']
      else if 172 \<le> d \<and> d \<le> 188 then [''Opposition'']
      else [])"
  by (auto simp: aspectTypes_def abs_window abs_le_iff)

lemma matchAspects_most_one: "length (matchAspects aspectTypes names d) \<le> 1"
proof -
  have "length (map aspect.type (matchAspects aspectTypes names d)) \<le> 1"
    unfolding catalog_windows by simp
  then show ?thesis by simp
qed

lemma pairAspects_most_one: "length (pairAspects names a b) \<le> 1"
proof (cases "\<exists>x y. a = Val x \<and> b = Val y")
  case True
  then obtain x y where "a = Val x" "b = Val y" by auto
  then show ?thesis using matchAspects_most_one[of names "separation x y"]
    by (simp add: pairAspects_def)
next
  case False
  then have "pairAspects names a b = []" by (cases a; cases b) (auto simp: pairAspects_def)
  then show ?thesis by simp
qed

lemma filter_none: "(\<And>x. x \<in> set xs \<Longrightarrow> \<not> P x) \<Longrightarrow> length (filter P xs) = 0"
  by (induction xs) auto

lemma filter_pair_most_one: "length (filter P (pairAspects names a b)) \<le> 1"
  using pairAspects_most_one[of names a b] length_filter_le[of P "pairAspects names a b"]
  by linarith

lemma innerLoop_between:
  "m \<in> set (innerLoop ki a rest) \<Longrightarrow> fst (between m) = ki \<and> snd (between m) \<in> fst ` set rest"
proof (induction rest)
  case Nil
  then show ?case by simp
next
  case (Cons kb rest)
  obtain kj b where kb: "kb = (kj, b)" by (cases kb)
  from Cons.prems have "m \<in> set (pairAspects (ki, kj) a b) \<or> m \<in> set (innerLoop ki a rest)"
    by (simp add: kb)
  then show ?case
  proof
    assume "m \<in> set (pairAspects (ki, kj) a b)"
    then have "between m = (ki, kj)" by (rule pairAspects_between)
    then show ?thesis by (simp add: kb)
  next
    assume "m \<in> set (innerLoop ki a rest)"
    then show ?thesis using Cons.IH by (simp add: kb)
  qed
qed

lemma innerLoop_most_one:
  "distinct (map fst rest) \<Longrightarrow>
     length (filter (\<lambda>m. snd (between m) = y) (innerLoop ki a rest)) \<le> 1"
proof (induction rest)
  case Nil
  then show ?case by simp
next
  case (Cons kb rest)
  obtain kj b where kb: "kb = (kj, b)" by (cases kb)
  have d: "kj \<notin> fst ` set rest" "distinct (map fst rest)" using Cons.prems by (simp_all add: kb)
  let ?P = "\<lambda>m. snd (between m) = y"
  show ?case
  proof (cases "kj = y")
    case True
    have "length (filter ?P (innerLoop ki a rest)) = 0"
      using innerLoop_between[of _ ki a rest] d(1) True by (intro filter_none) auto
    then show ?thesis using filter_pair_most_one[of ?P "(ki, kj)" a b] by (simp add: kb)
  next
    case False
    have "length (filter ?P (pairAspects (ki, kj) a b)) = 0"
      using pairAspects_between[of _ "(ki, kj)" a b] False by (intro filter_none) auto
    then show ?thesis using Cons.IH[OF d(2)] by (simp add: kb)
  qed
qed

lemma getAspects_between:
  "m \<in> set (getAspects ps) \<Longrightarrow>
     fst (between m) \<in> fst ` set ps \<and> snd (between m) \<in> fst ` set ps"
proof (induction ps)
  case Nil
  then show ?case by simp
next
  case (Cons ka rest)
  obtain ki a where ka: "ka = (ki, a)" by (cases ka)
  from Cons.prems have "m \<in> set (innerLoop ki a rest) \<or> m \<in> set (getAspects rest)"
    by (simp add: ka)
  then show ?case
  proof
    assume "m \<in> set (innerLoop ki a rest)"
    then show ?thesis using innerLoop_between[of m ki a rest] by (simp add: ka)
  next
    assume "m \<in> set (getAspects rest)"
    then show ?thesis using Cons.IH by (simp add: ka)
  qed
qed

lemma getAspects_most_one:
  "distinct (map fst ps) \<Longrightarrow>
     length (filter (\<lambda>m. between m = (x, y) \<or> between m = (y, x)) (getAspects ps)) \<le> 1"
proof (induction ps)
  case Nil
  then show ?case by simp
next
  case (Cons ka rest)
  obtain ki a where ka: "ka = (ki, a)" by (cases ka)
  have d: "ki \<notin> fst ` set rest" "distinct (map fst rest)" using Cons.prems by (simp_all add: ka)
  let ?P = "\<lambda>m. between m = (x, y) \<or> between m = (y, x)"
  have len: "length (filter ?P (getAspects (ka # rest)))
      = length (filter ?P (innerLoop ki a rest)) + length (filter ?P (getAspects rest))"
    by (simp add: ka)
  show ?case
  proof (cases "ki = x \<or> ki = y")
    case True
    have r0: "length (filter ?P (getAspects rest)) = 0"
    proof (rule filter_none)
      fix m assume "m \<in> set (getAspects rest)"
      then have "fst (between m) \<in> fst ` set rest \<and> snd (between m) \<in> fst ` set rest"
        by (rule getAspects_between)
      then have "fst (between m) \<noteq> ki \<and> snd (between m) \<noteq> ki" using d(1) by metis
      then show "\<not> ?P m" using True by (cases "between m") auto
    qed
    define z where "z = (if ki = x then y else x)"
    have "filter ?P (innerLoop ki a rest) = filter (\<lambda>m. snd (between m) = z) (innerLoop ki a rest)"
    proof (rule filter_cong[OF refl])
      fix m assume "m \<in> set (innerLoop ki a rest)"
      then have "fst (between m) = ki \<and> snd (between m) \<in> fst ` set rest"
        by (rule innerLoop_between)
      then have "fst (between m) = ki \<and> snd (between m) \<noteq> ki" using d(1) by metis
      then show "?P m = (snd (between m) = z)"
        using True unfolding z_def by (cases "between m") auto
    qed
    then have "length (filter ?P (innerLoop ki a rest)) \<le> 1"
      using innerLoop_most_one[OF d(2), of z ki a] by simp
    then show ?thesis using r0 len by linarith
  next
    case False
    have "length (filter ?P (innerLoop ki a rest)) = 0"
    proof (rule filter_none)
      fix m assume "m \<in> set (innerLoop ki a rest)"
      then have "fst (between m) = ki \<and> snd (between m) \<in> fst ` set rest"
        by (rule innerLoop_between)
      then show "\<not> ?P m" using False by auto
    qed
    then show ?thesis using Cons.IH[OF d(2)] len by linarith
  qed
qed

lemma transitLoop_between:
  "m \<in> set (transitLoop ntl a rest) \<Longrightarrow>
     \<exists>trn \<in> fst ` set rest. between m = (''Natal '' @ ntl, ''Transit '' @ trn)"
proof (induction rest)
  case Nil
  then show ?case by simp
next
  case (Cons kb rest)
  obtain trn b where kb: "kb = (trn, b)" by (cases kb)
  from Cons.prems
  have "m \<in> set (pairAspects (''Natal '' @ ntl, ''Transit '' @ trn) a b)
          \<or> m \<in> set (transitLoop ntl a rest)"
    by (simp add: kb)
  then show ?case
  proof
    assume "m \<in> set (pairAspects (''Natal '' @ ntl, ''Transit '' @ trn) a b)"
    then have "between m = (''Natal '' @ ntl, ''Transit '' @ trn)" by (rule pairAspects_between)
    then show ?thesis by (simp add: kb)
  next
    assume "m \<in> set (transitLoop ntl a rest)"
    then show ?thesis using Cons.IH by (auto simp: kb)
  qed
qed

lemma transitLoop_most_one:
  "distinct (map fst rest) \<Longrightarrow>
     length (filter (\<lambda>m. snd (between m) = ''Transit '' @ t) (transitLoop ntl a rest)) \<le> 1"
proof (induction rest)
  case Nil
  then show ?case by simp
next
  case (Cons kb rest)
  obtain trn b where kb: "kb = (trn, b)" by (cases kb)
  have d: "trn \<notin> fst ` set rest" "distinct (map fst rest)" using Cons.prems by (simp_all add: kb)
  let ?P = "\<lambda>m. snd (between m) = ''Transit '' @ t"
  show ?case
  proof (cases "trn = t")
    case True
    have "length (filter ?P (transitLoop ntl a rest)) = 0"
    proof (rule filter_none)
      fix m assume "m \<in> set (transitLoop ntl a rest)"
      then obtain trn' where t': "trn' \<in> fst ` set rest"
          "between m = (''Natal '' @ ntl, ''Transit '' @ trn')"
        using transitLoop_between by blast
      then have "trn' \<noteq> t" using d(1) True by metis
      then show "\<not> ?P m" using t'(2) by auto
    qed
    then show ?thesis
      using filter_pair_most_one[of ?P "(''Natal '' @ ntl, ''Transit '' @ trn)" a b]
      by (simp add: kb)
  next
    case False
    have "length (filter ?P (pairAspects (''Natal '' @ ntl, ''Transit '' @ trn) a b)) = 0"
      using pairAspects_between[of _ "(''Natal '' @ ntl, ''Transit '' @ trn)" a b] False
      by (intro filter_none) auto
    then show ?thesis using Cons.IH[OF d(2)] by (simp add: kb)
  qed
qed

lemma aspects_to_natal_between:
  "m \<in> set (aspects_to_natal natalAbs transitAbs) \<Longrightarrow>
     \<exists>ntl \<in> fst ` set natalAbs. fst (between m) = ''Natal '' @ ntl"
proof (induction natalAbs)
  case Nil
  then show ?case by simp
next
  case (Cons ka rest)
  obtain ntl a where ka: "ka = (ntl, a)" by (cases ka)
  from Cons.prems
  have "m \<in> set (transitLoop ntl a transitAbs) \<or> m \<in> set (aspects_to_natal rest transitAbs)"
    by (simp add: ka)
  then show ?case
  proof
    assume "m \<in> set (transitLoop ntl a transitAbs)"
    then show ?thesis using transitLoop_between[of m ntl a transitAbs] by (auto simp: ka)
  next
    assume "m \<in> set (aspects_to_natal rest transitAbs)"
    then show ?thesis using Cons.IH by (auto simp: ka)
  qed
qed

lemma aspects_to_natal_most_one:
  assumes "distinct (map fst transitAbs)"
  shows "distinct (map fst natalAbs) \<Longrightarrow>
     length (filter (\<lambda>m. between m = (''Natal '' @ n, ''Transit '' @ t))
               (aspects_to_natal natalAbs transitAbs)) \<le> 1"
proof (induction natalAbs)
  case Nil
  then show ?case by simp
next
  case (Cons ka rest)
  obtain ntl a where ka: "ka = (ntl, a)" by (cases ka)
  have d: "ntl \<notin> fst ` set rest" "distinct (map fst rest)" using Cons.prems by (simp_all add: ka)
  let ?P = "\<lambda>m. between m = (''Natal '' @ n, ''Transit '' @ t)"
  have len: "length (filter ?P (aspects_to_natal (ka # rest) transitAbs))
      = length (filter ?P (transitLoop ntl a transitAbs))
        + length (filter ?P (aspects_to_natal rest transitAbs))"
    by (simp add: ka)
  show ?case
  proof (cases "ntl = n")
    case True
    have r0: "length (filter ?P (aspects_to_natal rest transitAbs)) = 0"
    proof (rule filter_none)
      fix m assume "m \<in> set (aspects_to_natal rest transitAbs)"
      then obtain n' where n': "n' \<in> fst ` set rest" "fst (between m) = ''Natal '' @ n'"
        using aspects_to_natal_between by blast
      then have "n' \<noteq> n" using d(1) True by metis
      then show "\<not> ?P m" using n'(2) by auto
    qed
    have "length (filter ?P (transitLoop ntl a transitAbs))
        \<le> length (filter (\<lambda>m. snd (between m) = ''Transit '' @ t) (transitLoop ntl a transitAbs))"
    proof -
      have "filter ?P (transitLoop ntl a transitAbs)
          = filter ?P (filter (\<lambda>m. snd (between m) = ''Transit '' @ t) (transitLoop ntl a transitAbs))"
        by (auto intro: filter_cong)
      then show ?thesis by (metis length_filter_le)
    qed
    then show ?thesis using transitLoop_most_one[OF assms, of t ntl a] r0 len by linarith
  next
    case False
    have "length (filter ?P (transitLoop ntl a transitAbs)) = 0"
    proof (rule filter_none)
      fix m assume "m \<in> set (transitLoop ntl a transitAbs)"
      then obtain trn where "between m = (''Natal '' @ ntl, ''Transit '' @ trn)"
        using transitLoop_between by blast
      then show "\<not> ?P m" using False by auto
    qed
    then show ?thesis using Cons.IH[OF d(2)] len by linarith
  qed
qed

lemma separation_range:
  assumes "0 \<le> a" "a < 360" "0 \<le> b" "b < 360"
  shows "0 \<le> separation a b \<and> separation a b \<le> 180"
  using assms by (auto simp: separation_def Let_def abs_if)

text \<open>
  C9 (as the code has it). For longitudes in [0,360) the catalog matches a pair through
  one of five windows on its separation: [0,8] Conjunction, [54,66] Sextile, [82,98]
  Square, [112,128] Trine, [172,180] Opposition. The windows are pairwise disjoint, so
  \<^verbatim>\<open>getAspects\<close> returns at most one match for an unordered pair of bodies, and the
  cross-set loop at most one for a natal body and a transit body.
\<close>

theorem aspects_at_most_one:
  "(0 \<le> a \<and> a < 360 \<and> 0 \<le> b \<and> b < 360 \<longrightarrow>
      map aspect.type (pairAspects names (Val a) (Val b)) =
        (if separation a b \<le> 8 then [''Conjunction'']
         else if 54 \<le> separation a b \<and> separation a b \<le> 66 then [''Sextile'']
         else if 82 \<le> separation a b \<and> separation a b \<le> 98 then [''Square'']
         else if 112 \<le> separation a b \<and> separation a b \<le> 128 then [''Trine'']
         else if 172 \<le> separation a b then [''Opposition'']
         else []))
   \<and> (distinct (map fst ps) \<longrightarrow>
        length (filter (\<lambda>m. between m = (x, y) \<or> between m = (y, x)) (getAspects ps)) \<le> 1)
   \<and> (distinct (map fst natalAbs) \<and> distinct (map fst transitAbs) \<longrightarrow>
        length (filter (\<lambda>m. between m = (''Natal '' @ n, ''Transit '' @ t))
                  (aspects_to_natal natalAbs transitAbs)) \<le> 1)"
proof (intro conjI impI)
  assume "0 \<le> a \<and> a < 360 \<and> 0 \<le> b \<and> b < 360"
  then have "0 \<le> separation a b \<and> separation a b \<le> 180" using separation_range by simp
  then show "map aspect.type (pairAspects names (Val a) (Val b)) =
        (if separation a b \<le> 8 then [''Conjunction'']
         else if 54 \<le> separation a b \<and> separation a b \<le> 66 then [''Sextile'']
         else if 82 \<le> separation a b \<and> separation a b \<le> 98 then [''Square'']
         else if 112 \<le> separation a b \<and> separation a b \<le> 128 then [''Trine'']
         else if 172 \<le> separation a b then [''Opposition'']
         else [])"
    unfolding pairAspects_def by (simp add: catalog_windows)
next
  assume "distinct (map fst ps)"
  then show "length (filter (\<lambda>m. between m = (x, y) \<or> between m = (y, x)) (getAspects ps)) \<le> 1"
    by (rule getAspects_most_one)
next
  assume "distinct (map fst natalAbs) \<and> distinct (map fst transitAbs)"
  then show "length (filter (\<lambda>m. between m = (''Natal '' @ n, ''Transit '' @ t))
                  (aspects_to_natal natalAbs transitAbs)) \<le> 1"
    using aspects_to_natal_most_one by blast
qed

theorem aspects_at_most_one_witness:
  "map aspect.type (pairAspects (''Sun'', ''Moon'') (Val 10) (Val 70)) = [''Sextile'']
   \<and> length (filter (\<lambda>m. between m = (''Sun'', ''Moon'') \<or> between m = (''Moon'', ''Sun''))
               (getAspects [(''Sun'', Val 10), (''Moon'', Val 70), (''Mars'', Val 190)])) \<le> 1
   \<and> length (filter (\<lambda>m. between m = (''Natal '' @ ''Sun'', ''Transit '' @ ''Moon''))
               (aspects_to_natal [(''Sun'', Val 10), (''Moon'', Val 70)]
                  [(''Sun'', Val 100), (''Moon'', Val 130)])) \<le> 1"
  using aspects_at_most_one[of 10 70 "(''Sun'', ''Moon'')"
      "[(''Sun'', Val 10), (''Moon'', Val 70), (''Mars'', Val 190)]" "''Sun''" "''Moon''"
      "[(''Sun'', Val 10), (''Moon'', Val 70)]" "[(''Sun'', Val 100), (''Moon'', Val 130)]"
      "''Sun''" "''Moon''"]
  by (simp add: separation_def)

text \<open>
  C9 as stated fails in its Sextile window: a separation of 53 lies in [52,66] and is no
  match, the orb of the Sextile being 6.
\<close>

theorem sextile_window_starts_at_54:
  "52 \<le> separation 0 53 \<and> separation 0 53 \<le> 66
   \<and> getAspects [(''Sun'', Val 0), (''Moon'', Val 53)] = []"
  by (simp add: separation_def pairAspects_def aspectTypes_def)

section \<open>The transit pass and the houses\<close>

lemma findHouse_in_range:
  assumes "length cs = 12"
  shows "\<exists>h. findHouse (Some cs) (Some L) = Some h \<and> 1 \<le> h \<and> h \<le> 12"
proof -
  from some_house[OF assms] obtain k where k: "1 \<le> k" "k \<le> 12" "inHouse cs (Some L) k" by auto
  have "houseScan cs (Some L) 1 \<noteq> None" using houseScan_None[of cs "Some L" 1 k] k by auto
  then obtain h where h: "houseScan cs (Some L) 1 = Some h" by auto
  then show ?thesis using houseScan_Some[OF h] by (simp add: findHouse_def)
qed

lemma getTransits_houses:
  "map (\<lambda>(k, p). house p) (getTransits swe jdNatal jdTransit) = replicate 12 None"
  by (simp add: getTransits_def getAllPositions_def selectCusps_def findHouse_def PLANETS_def
      Let_def numeral_eq_Suc)

lemma withoutAbsDegree_houses:
  "map (\<lambda>(k, p). house p) (withoutAbsDegree ps) = map (\<lambda>(k, p). house p) ps"
  by (induction ps) (auto simp: withoutAbsDegree_def)

text \<open>
  C1. The two variants differ. In the flat variant \<^verbatim>\<open>getTransits\<close> calls
  \<^verbatim>\<open>getAllPositions\<close> without the houses, so every transit body of the answer has
  no house, whatever the houses of the birth moment are. In the structured variant the
  transit pass scans \<^verbatim>\<open>houses.cusps\<close>, the cusps of the birth moment: with 12 cusps
  every transit body with a longitude gets the house of that scan, a house in 1..12.
\<close>

theorem flat_transits_have_no_house:
  "map (\<lambda>(k, p). house p) (getTransits swe jdNatal jdTransit) = replicate 12 None
   \<and> (natalChartFlat swe body = Inr r \<and> truthy (transit_date body) \<and> truthy (transit_time body)
      \<longrightarrow> (\<exists>ts. transits r = Some ts \<and> map (\<lambda>(k, p). house p) ts = replicate 12 None))
   \<and> (length cs = 12 \<and> housesCusps hs = Some cs \<and> (name, planet) \<in> set PLANETS
        \<and> longitude (swe_calc_ut swe jdTransit planet) = Val L
      \<longrightarrow> (\<exists>h pl. (planetKey name, pl) \<in> set (transitPositions swe hs jdTransit)
                  \<and> house pl = findHouse (Some cs) (Some L) \<and> house pl = Some h
                  \<and> 1 \<le> h \<and> h \<le> 12))"
proof (intro conjI impI)
  show "map (\<lambda>(k, p). house p) (getTransits swe jdNatal jdTransit) = replicate 12 None"
    by (rule getTransits_houses)
next
  assume a: "natalChartFlat swe body = Inr r \<and> truthy (transit_date body)
      \<and> truthy (transit_time body)"
  then obtain jd jdT where "transits r = Some (withoutAbsDegree (getTransits swe jd jdT))"
    by (auto simp: natalChartFlat_def Let_def split: sum.splits)
  then show "\<exists>ts. transits r = Some ts \<and> map (\<lambda>(k, p). house p) ts = replicate 12 None"
    using getTransits_houses[of swe jd jdT] by (simp add: withoutAbsDegree_houses)
next
  assume a: "length cs = 12 \<and> housesCusps hs = Some cs \<and> (name, planet) \<in> set PLANETS
        \<and> longitude (swe_calc_ut swe jdTransit planet) = Val L"
  define pl :: placement where
    "pl = \<lparr>sign = signOf (Val L), degree = degreeOf (Val L),
            house = findHouse (Some cs) (Some L)\<rparr>"
  have "(planetKey name, pl) \<in> (\<lambda>(name, planet).
            let res = swe_calc_ut swe jdTransit planet;
                deg = longitude res
            in (planetKey name,
                \<lparr>sign = signOf deg, degree = degreeOf deg,
                 house = findHouse (housesCusps hs) (toNum deg)\<rparr>)) ` set PLANETS"
    using a by (intro image_eqI[where x = "(name, planet)"]) (simp_all add: pl_def Let_def)
  then have m: "(planetKey name, pl) \<in> set (transitPositions swe hs jdTransit)"
    by (simp add: transitPositions_def)
  from findHouse_in_range[of cs L] a obtain h where
    "findHouse (Some cs) (Some L) = Some h" "1 \<le> h" "h \<le> 12" by auto
  then show "\<exists>h pl. (planetKey name, pl) \<in> set (transitPositions swe hs jdTransit)
                  \<and> house pl = findHouse (Some cs) (Some L) \<and> house pl = Some h
                  \<and> 1 \<le> h \<and> h \<le> 12"
    using m by (intro exI[of _ h] exI[of _ pl]) (simp add: pl_def)
qed

theorem flat_transits_have_no_house_witness:
  "(\<exists>r. natalChartFlat
          \<lparr>swe_julday = (\<lambda>dt. 0),
           swe_calc_ut = (\<lambda>jd planet. \<lparr>longitude = Val 100, speed = Val 1\<rparr>),
           getHousesWithError = (\<lambda>jd la lo hs.
             Some \<lparr>cusps = Some [0, 30, 60, 90, 120, 150, 180, 210, 240, 270, 300, 330],
                   detail_house = None\<rparr>)\<rparr>
          \<lparr>date = JStr ''2000-01-01'', time = JStr ''12:00'', timezone = JStr ''Z'',
           lat = JNum 10, lon = JNum 20, transit_date = JStr ''2020-06-01'',
           transit_time = JStr ''08:30'', hsys = JUndefined, transit_timezone = JUndefined\<rparr>
        = Inr r
      \<and> map (\<lambda>(k, p). house p) (positions r) = replicate 12 (Some 4)
      \<and> (\<exists>ts. transits r = Some ts \<and> map (\<lambda>(k, p). house p) ts = replicate 12 None))
   \<and> map (\<lambda>(k, p). house p)
        (transitPositions
          \<lparr>swe_julday = (\<lambda>dt. 0),
           swe_calc_ut = (\<lambda>jd planet. \<lparr>longitude = Val 100, speed = Val 1\<rparr>),
           getHousesWithError = (\<lambda>jd la lo hs.
             Some \<lparr>cusps = Some [0, 30, 60, 90, 120, 150, 180, 210, 240, 270, 300, 330],
                   detail_house = None\<rparr>)\<rparr>
          (Some \<lparr>cusps = Some [0, 30, 60, 90, 120, 150, 180, 210, 240, 270, 300, 330],
                 detail_house = None\<rparr>) 0)
      = replicate 12 (Some 4)"
proof -
  let ?cs = "[0, 30, 60, 90, 120, 150, 180, 210, 240, 270, 300, 330] :: real list"
  let ?hs = "\<lparr>cusps = Some ?cs, detail_house = None\<rparr>"
  let ?swe = "\<lparr>swe_julday = (\<lambda>dt. 0),
           swe_calc_ut = (\<lambda>jd planet. \<lparr>longitude = Val 100, speed = Val 1\<rparr>),
           getHousesWithError = (\<lambda>jd la lo hs. Some ?hs)\<rparr>"
  let ?body = "\<lparr>date = JStr ''2000-01-01'', time = JStr ''12:00'', timezone = JStr ''Z'',
           lat = JNum 10, lon = JNum 20, transit_date = JStr ''2020-06-01'',
           transit_time = JStr ''08:30'', hsys = JUndefined, transit_timezone = JUndefined\<rparr>"
  have h4: "findHouse (Some ?cs) (Some 100) = Some 4"
    by (simp add: findHouse_def houseScan.simps inHouse_def cuspAt_def)
  have p: "\<exists>b. parseDateTime (JStr ''2000-01-01'') (JStr ''12:00'') (JStr ''Z'') = Inr b"
    "\<exists>b. parseDateTime (JStr ''2020-06-01'') (JStr ''08:30'') JUndefined = Inr b"
    by (simp_all add: parseDateTime_def Let_def)
  then obtain b1 b2 where b: "parseDateTime (JStr ''2000-01-01'') (JStr ''12:00'') (JStr ''Z'') = Inr b1"
    "parseDateTime (JStr ''2020-06-01'') (JStr ''08:30'') JUndefined = Inr b2" by auto
  have ps: "map (\<lambda>(k, p). house p) (getAllPositions ?swe 0 (Some ?hs)) = replicate 12 (Some 4)"
    by (simp add: getAllPositions_def selectCusps_def h4 PLANETS_def Let_def numeral_eq_Suc)
  obtain r where r: "natalChartFlat ?swe ?body = Inr r"
    "positions r = withoutAbsDegree (getAllPositions ?swe 0 (Some ?hs))"
    by (simp add: natalChartFlat_def b Let_def)
  have 1: "map (\<lambda>(k, p). house p) (positions r) = replicate 12 (Some 4)"
    unfolding r(2) withoutAbsDegree_houses by (rule ps)
  from flat_transits_have_no_house[of ?swe 0 0 ?body r ?cs "Some ?hs" "''Sun''" SE_SUN 100] r(1)
  have 2: "\<exists>ts. transits r = Some ts \<and> map (\<lambda>(k, p). house p) ts = replicate 12 None"
    by simp
  have 3: "map (\<lambda>(k, p). house p) (transitPositions ?swe (Some ?hs) 0) = replicate 12 (Some 4)"
    by (simp add: transitPositions_def housesCusps_def h4 PLANETS_def Let_def numeral_eq_Suc)
  show ?thesis using r(1) 1 2 3 by blast
qed

end
